theory Spec2Isabelle
  imports Complex_Main "HOL-Library.Log_Nat"
begin

section \<open>Python values\<close>

text \<open>
  The configuration flow of the Bayesian integration works on dictionaries that map
  strings to the values a form delivers: numbers, strings, booleans and None. A Python
  float is an IEEE binary64 number. Its finite values are modelled by the rational they
  denote; the results of arithmetic are rounded to the nearest binary64 number, ties to
  even, as the hardware does. The sign of zero is not modelled: Python's \<open>==\<close>
  identifies \<open>-0.0\<close> and \<open>0.0\<close>.
\<close>

datatype pyfloat = Finite rat | PosInf | NegInf | NaN

datatype pyval = PNone | PBool bool | PInt int | PFloat pyfloat | PStr string

type_synonym pydict = "string \<rightharpoonup> pyval"

datatype error =
    SchemaFlowError string
  | KeyError string
  | OverflowError
  | ValueError
  | TypeError
  | IndexError
  | AttributeError
  | NameError string
  | HomeAssistantError
  | UnknownFlow

subsection \<open>Rounding to binary64\<close>

text \<open>\<open>ilog2 q\<close> is the binary exponent of a non-zero rational: \<open>2 powi ilog2 q \<le> \<bar>q\<bar> < 2 powi (ilog2 q + 1)\<close>.\<close>

definition ilog2 :: "rat \<Rightarrow> int" where
  "ilog2 q = (let (a, b) = quotient_of \<bar>q\<bar>; e = bitlen a - bitlen b
              in if 2 powi e \<le> \<bar>q\<bar> then e else e - 1)"

definition round_half_even :: "rat \<Rightarrow> int" where
  "round_half_even x = (let f = \<lfloor>x\<rfloor>; d = x - of_int f
     in if d < 1 / 2 then f else if 1 / 2 < d then f + 1 else if even f then f else f + 1)"

text \<open>
  The exponent of the last place of the binary64 numbers next to \<open>q\<close>: 53 significant
  bits, and the fixed spacing \<open>2 powi - 1074\<close> of the subnormal range below \<open>2 powi - 1022\<close>.
\<close>

definition ulp_exp :: "rat \<Rightarrow> int" where
  "ulp_exp q = max (ilog2 q) (- 1022) - 52"

definition round_double :: "rat \<Rightarrow> rat" where
  "round_double q = (if q = 0 then 0
     else of_int (round_half_even (q / 2 powi ulp_exp q)) * 2 powi ulp_exp q)"

text \<open>A rounded result of magnitude \<open>2 ^ 1024\<close> or more has no finite binary64 value.\<close>

definition overflows :: "rat \<Rightarrow> bool" where
  "overflows q = (2 ^ 1024 \<le> \<bar>round_double q\<bar>)"

text \<open>Float arithmetic never raises on overflow: the result is an infinity.\<close>

definition fl :: "rat \<Rightarrow> pyfloat" where
  "fl q = (if overflows q then (if 0 < q then PosInf else NegInf) else Finite (round_double q))"

subsection \<open>Operators and builtins\<close>

text \<open>\<open>isinstance(value, (int, float))\<close>: bool is a subclass of int.\<close>

fun is_int_or_float :: "pyval \<Rightarrow> bool" where
  "is_int_or_float (PBool _) = True"
| "is_int_or_float (PInt _) = True"
| "is_int_or_float (PFloat _) = True"
| "is_int_or_float _ = False"

fun int_of_bool :: "bool \<Rightarrow> int" where
  "int_of_bool True = 1"
| "int_of_bool False = 0"

text \<open>
  \<open>value / 100\<close>. True division of two ints gives the correctly rounded float of the
  exact quotient and raises OverflowError when that float would not be finite. A float
  operand is divided as IEEE does. Other operands do not support \<open>/\<close>.
\<close>

fun int_truediv_100 :: "int \<Rightarrow> error + pyval" where
  "int_truediv_100 n =
     (if overflows (of_int n / 100) then Inl OverflowError
      else Inr (PFloat (Finite (round_double (of_int n / 100)))))"

fun truediv_100 :: "pyval \<Rightarrow> error + pyval" where
  "truediv_100 (PInt n) = int_truediv_100 n"
| "truediv_100 (PBool b) = int_truediv_100 (int_of_bool b)"
| "truediv_100 (PFloat (Finite q)) = Inr (PFloat (fl (q / 100)))"
| "truediv_100 (PFloat PosInf) = Inr (PFloat PosInf)"
| "truediv_100 (PFloat NegInf) = Inr (PFloat NegInf)"
| "truediv_100 (PFloat NaN) = Inr (PFloat NaN)"
| "truediv_100 _ = Inl TypeError"

text \<open>
  \<open>value * 100\<close> on the values that pass the isinstance test. An int (or bool) times
  the int 100 is an exact int; a float is multiplied as IEEE does. (On a string \<open>*\<close>
  would repeat it; the conversion never applies it to one, and the case is not modelled.)
\<close>

fun mul_100 :: "pyval \<Rightarrow> pyval" where
  "mul_100 (PInt n) = PInt (n * 100)"
| "mul_100 (PBool b) = PInt (int_of_bool b * 100)"
| "mul_100 (PFloat (Finite q)) = PFloat (fl (q * 100))"
| "mul_100 (PFloat PosInf) = PFloat PosInf"
| "mul_100 (PFloat NegInf) = PFloat NegInf"
| "mul_100 (PFloat NaN) = PFloat NaN"
| "mul_100 v = v"

text \<open>The numeric value of a number, for comparisons: Python compares ints and floats exactly.\<close>

fun num_val :: "pyval \<Rightarrow> pyfloat option" where
  "num_val (PBool b) = Some (Finite (of_int (int_of_bool b)))"
| "num_val (PInt n) = Some (Finite (of_int n))"
| "num_val (PFloat f) = Some f"
| "num_val _ = None"

text \<open>\<open>a == b\<close> on form values. NaN equals nothing; a number never equals a string or None.\<close>

definition py_eq :: "pyval \<Rightarrow> pyval \<Rightarrow> bool" where
  "py_eq a b = (case (num_val a, num_val b) of
       (Some x, Some y) \<Rightarrow> x \<noteq> NaN \<and> x = y
     | (None, None) \<Rightarrow> a = b
     | _ \<Rightarrow> False)"

text \<open>Truth value of a form value, as \<open>if value:\<close> tests it.\<close>

fun truthy :: "pyval \<Rightarrow> bool" where
  "truthy PNone = False"
| "truthy (PBool b) = b"
| "truthy (PInt n) = (n \<noteq> 0)"
| "truthy (PFloat (Finite q)) = (q \<noteq> 0)"
| "truthy (PFloat _) = True"
| "truthy (PStr s) = (s \<noteq> [])"

section \<open>Constants\<close>

text \<open>
  Modelled from the spec: the constants of \<open>homeassistant.const\<close> and of the
  integration's \<open>const\<close> module are imported by the flow but are not part of the
  sources. They are the keys the flow reads and writes; the development uses no
  property of them other than that they are different strings.
\<close>

definition CONF_P_GIVEN_T :: string where "CONF_P_GIVEN_T = ''p_given_t''"
definition CONF_P_GIVEN_F :: string where "CONF_P_GIVEN_F = ''p_given_f''"
definition CONF_PRIOR :: string where "CONF_PRIOR = ''prior''"
definition CONF_PROBABILITY_THRESHOLD :: string where
  "CONF_PROBABILITY_THRESHOLD = ''probability_threshold''"
definition CONF_OBSERVATIONS :: string where "CONF_OBSERVATIONS = ''observations''"
definition CONF_PLATFORM :: string where "CONF_PLATFORM = ''platform''"
definition CONF_STATE :: string where "CONF_STATE = ''state''"
definition CONF_TEMPLATE :: string where "CONF_TEMPLATE = ''template''"
definition CONF_NAME :: string where "CONF_NAME = ''name''"
definition CONF_VALUE_TEMPLATE :: string where "CONF_VALUE_TEMPLATE = ''value_template''"

section \<open>Unit conversion\<close>

definition percentages :: "string list" where
  "percentages = [CONF_P_GIVEN_T, CONF_P_GIVEN_F, CONF_PRIOR, CONF_PROBABILITY_THRESHOLD]"

text \<open>The value the first comprehension computes for one item of the dictionary.\<close>

definition fraction_item :: "string \<Rightarrow> pyval \<Rightarrow> error + pyval" where
  "fraction_item key val =
     (if is_int_or_float val \<and> key \<in> set percentages then truediv_100 val else Inr val)"

text \<open>
  The comprehension raises when the division of one item raises; only a value under one
  of the four keys is divided, so only those keys are looked at.
\<close>

definition convert_percentages_to_fractions :: "pydict \<Rightarrow> error + pydict" where
  "convert_percentages_to_fractions data =
     (if \<exists>key \<in> set percentages.
           (case data key of None \<Rightarrow> False | Some val \<Rightarrow> isl (fraction_item key val))
      then Inl OverflowError
      else Inr (\<lambda>key. map_option (\<lambda>val. projr (fraction_item key val)) (data key)))"

definition percentage_item :: "string \<Rightarrow> pyval \<Rightarrow> pyval" where
  "percentage_item key val =
     (if is_int_or_float val \<and> key \<in> set percentages then mul_100 val else val)"

definition convert_fractions_to_percentages :: "pydict \<Rightarrow> pydict" where
  "convert_fractions_to_percentages data = (\<lambda>key. map_option (percentage_item key) (data key))"


section \<open>More builtins: \<open>int()\<close> and list item assignment\<close>

text \<open>
  A string is modelled by its characters, which are those of the code points up to 255.
  The whitespace that \<open>int()\<close> skips at both ends of such a string: tab, line feed,
  vertical tab, form feed, carriage return, space, next line (\<open>0x85\<close>) and no-break
  space (\<open>0xA0\<close>). The separators \<open>0x1C\<close> to \<open>0x1F\<close> are not among them.
\<close>

definition is_space :: "char \<Rightarrow> bool" where
  "is_space c = (c \<in> set [CHR 0x09, CHR 0x0A, CHR 0x0B, CHR 0x0C, CHR 0x0D, CHR 0x20,
                            CHR 0x85, CHR 0xA0])"

definition strip :: "string \<Rightarrow> string" where
  "strip s = rev (dropWhile is_space (rev (dropWhile is_space s)))"

definition digit_of :: "char \<Rightarrow> nat option" where
  "digit_of c = map_of
     [(CHR ''0'', 0), (CHR ''1'', 1), (CHR ''2'', 2), (CHR ''3'', 3), (CHR ''4'', 4),
      (CHR ''5'', 5), (CHR ''6'', 6), (CHR ''7'', 7), (CHR ''8'', 8), (CHR ''9'', 9)] c"

text \<open>The digits after the first one; an underscore may stand between two digits.\<close>

fun more_digits :: "nat \<Rightarrow> string \<Rightarrow> nat option" where
  "more_digits acc [] = Some acc"
| "more_digits acc (c # cs) =
     (if c = CHR ''_'' then
        (case cs of
           [] \<Rightarrow> None
         | d # ds \<Rightarrow> (case digit_of d of None \<Rightarrow> None | Some v \<Rightarrow> more_digits (acc * 10 + v) ds))
      else (case digit_of c of None \<Rightarrow> None | Some v \<Rightarrow> more_digits (acc * 10 + v) cs))"

text \<open>
  A decimal literal. The interpreter refuses a literal of more than 4300 digits (the
  default of \<open>sys.int_info.default_max_str_digits\<close>); leading zeros count, underscores
  do not.
\<close>

definition max_str_digits :: nat where
  "max_str_digits = 4300"

definition digits :: "string \<Rightarrow> nat option" where
  "digits s =
     (if max_str_digits < length (filter (\<lambda>c. c \<noteq> CHR ''_'') s) then None
      else (case s of
              [] \<Rightarrow> None
            | c # cs \<Rightarrow> (case digit_of c of None \<Rightarrow> None | Some v \<Rightarrow> more_digits v cs)))"

text \<open>
  \<open>int(s)\<close> for a string: surrounding whitespace, an optional sign, decimal digits.
  A string it does not accept raises ValueError.
\<close>

definition int_of_string :: "string \<Rightarrow> int option" where
  "int_of_string s = (case strip s of
       [] \<Rightarrow> None
     | c # cs \<Rightarrow>
         if c = CHR ''-'' then map_option (\<lambda>n. - int n) (digits cs)
         else if c = CHR ''+'' then map_option int (digits cs)
         else map_option int (digits (c # cs)))"

fun py_int :: "pyval \<Rightarrow> error + int" where
  "py_int (PInt n) = Inr n"
| "py_int (PBool b) = Inr (int_of_bool b)"
| "py_int (PFloat (Finite q)) = Inr (if 0 \<le> q then \<lfloor>q\<rfloor> else \<lceil>q\<rceil>)"
| "py_int (PFloat NaN) = Inl ValueError"
| "py_int (PFloat _) = Inl OverflowError"
| "py_int (PStr s) = (case int_of_string s of None \<Rightarrow> Inl ValueError | Some n \<Rightarrow> Inr n)"
| "py_int PNone = Inl TypeError"

text \<open>A list index: a negative one counts from the end; out of range there is none.\<close>

definition list_index :: "'a list \<Rightarrow> int \<Rightarrow> nat option" where
  "list_index xs i =
     (let n = int (length xs); j = (if i < 0 then i + n else i)
      in if 0 \<le> j \<and> j < n then Some (nat j) else None)"

definition list_setitem :: "'a list \<Rightarrow> int \<Rightarrow> 'a \<Rightarrow> error + 'a list" where
  "list_setitem xs i x = (case list_index xs i of None \<Rightarrow> Inl IndexError | Some j \<Rightarrow> Inr (xs[j := x]))"

definition list_getitem :: "'a list \<Rightarrow> int \<Rightarrow> error + 'a" where
  "list_getitem xs i = (case list_index xs i of None \<Rightarrow> Inl IndexError | Some j \<Rightarrow> Inr (xs ! j))"

text \<open>\<open>d.get(key, default)\<close>, which is also the value of \<open>d.pop(key, default)\<close>.\<close>

definition dict_get :: "('k \<rightharpoonup> 'v) \<Rightarrow> 'k \<Rightarrow> 'v \<Rightarrow> 'v" where
  "dict_get d key dflt = (case d key of None \<Rightarrow> dflt | Some v \<Rightarrow> v)"

section \<open>The options of the flow handler\<close>

text \<open>
  \<open>handler.options\<close> is a dictionary supplied by the host. Under the key
  \<open>observations\<close> the flow keeps a list of dictionaries, one for each observation;
  every other entry is a form value.
\<close>

datatype optval = Scalar pyval | DictList "pydict list"

type_synonym options = "string \<rightharpoonup> optval"

fun opt_truthy :: "optval \<Rightarrow> bool" where
  "opt_truthy (Scalar v) = truthy v"
| "opt_truthy (DictList l) = (l \<noteq> [])"

fun opt_int :: "optval \<Rightarrow> error + int" where
  "opt_int (Scalar v) = py_int v"
| "opt_int (DictList l) = Inl TypeError"

datatype ConfigFlowSteps = USER | OBSERVATION_SELECTOR

datatype subschema = STATE_SUBSCHEMA | NUMERIC_STATE_SUBSCHEMA | TEMPLATE_SUBSCHEMA

section \<open>Schema selection and the next step\<close>

text \<open>
  \<open>observations[selected_idx][CONF_PLATFORM]\<close>. Only a list of dictionaries has such an
  item; a string can be indexed but its item, a string, cannot be indexed by a string.
\<close>

fun selected_platform :: "optval \<Rightarrow> int \<Rightarrow> error + pyval" where
  "selected_platform (DictList l) i =
     (case list_getitem l i of
        Inl e \<Rightarrow> Inl e
      | Inr observation \<Rightarrow>
          (case observation CONF_PLATFORM of None \<Rightarrow> Inl (KeyError CONF_PLATFORM) | Some p \<Rightarrow> Inr p))"
| "selected_platform (Scalar (PStr s)) i =
     (case list_getitem s i of Inl e \<Rightarrow> Inl e | Inr c \<Rightarrow> Inl TypeError)"
| "selected_platform (Scalar v) i = Inl TypeError"

definition get_edit_observation_schema :: "options \<Rightarrow> error + subschema option" where
  "get_edit_observation_schema opts =
     (case opts ''observations'' of
        None \<Rightarrow> Inl (KeyError ''observations'')
      | Some observations \<Rightarrow>
     (case opts ''index'' of
        None \<Rightarrow> Inl (KeyError ''index'')
      | Some idx \<Rightarrow>
     (case opt_int idx of
        Inl e \<Rightarrow> Inl e
      | Inr selected_idx \<Rightarrow>
     (case selected_platform observations selected_idx of
        Inl e \<Rightarrow> Inl e
      | Inr platform \<Rightarrow>
          if py_eq platform (PStr CONF_STATE) then Inr (Some STATE_SUBSCHEMA)
          else if py_eq platform (PStr ''numeric_state'') then Inr (Some NUMERIC_STATE_SUBSCHEMA)
          else if py_eq platform (PStr CONF_TEMPLATE) then Inr (Some TEMPLATE_SUBSCHEMA)
          else Inr None))))"

text \<open>\<open>user_input.get("add_another", False)\<close> decides the next step.\<close>

definition choose_observation_step :: "pydict \<Rightarrow> ConfigFlowSteps option" where
  "choose_observation_step user_input =
     (if truthy (dict_get user_input ''add_another'' (PBool False))
      then Some OBSERVATION_SELECTOR else None)"

section \<open>Validation\<close>

definition validate_user :: "options \<Rightarrow> pydict \<Rightarrow> error + pydict" where
  "validate_user handler_options user_input =
     (case user_input CONF_PRIOR of
        None \<Rightarrow> Inl (KeyError CONF_PRIOR)
      | Some prior \<Rightarrow>
          if py_eq prior (PInt 0) then Inl (SchemaFlowError ''prior_low_error'')
          else if py_eq prior (PInt 100) then Inl (SchemaFlowError ''prior_high_error'')
          else
            (case user_input CONF_PROBABILITY_THRESHOLD of
               None \<Rightarrow> Inl (KeyError CONF_PROBABILITY_THRESHOLD)
             | Some threshold \<Rightarrow>
                 if py_eq threshold (PInt 0) then Inl (SchemaFlowError ''threshold_low_error'')
                 else if py_eq threshold (PInt 100) then Inl (SchemaFlowError ''threshold_high_error'')
                 else convert_percentages_to_fractions user_input))"

text \<open>
  The validation of an observation changes the handler's options and the dictionary it
  is given (it pops \<open>add_another\<close> from it), and it can raise after some of these
  changes. The model therefore returns three things: the result or the exception, the
  options afterwards, and the caller's dictionary afterwards.
\<close>

text \<open>The last statements: overwrite in editing mode, append otherwise.\<close>

definition store_observation :: "options \<Rightarrow> pydict \<Rightarrow> error + options" where
  "store_observation opts observation =
     (let observations = (case opts CONF_OBSERVATIONS of None \<Rightarrow> DictList [] | Some v \<Rightarrow> v);
          opts1 = opts(CONF_OBSERVATIONS \<mapsto> observations)
      in case opts1 ''index'' of
           Some idx \<Rightarrow>
             if opt_truthy idx then
               (case opt_int idx of
                  Inl e \<Rightarrow> Inl e
                | Inr i \<Rightarrow>
                    (case observations of
                       Scalar _ \<Rightarrow> Inl TypeError
                     | DictList l \<Rightarrow>
                         (case list_setitem l i observation of
                            Inl e \<Rightarrow> Inl e
                          | Inr l' \<Rightarrow> Inr (opts1(CONF_OBSERVATIONS \<mapsto> DictList l')))))
             else
               (case observations of
                  Scalar _ \<Rightarrow> Inl AttributeError
                | DictList l \<Rightarrow> Inr (opts1(CONF_OBSERVATIONS \<mapsto> DictList (l @ [observation]))))
         | None \<Rightarrow>
             (case observations of
                Scalar _ \<Rightarrow> Inl AttributeError
              | DictList l \<Rightarrow> Inr (opts1(CONF_OBSERVATIONS \<mapsto> DictList (l @ [observation])))))"

text \<open>The options once \<open>setdefault\<close> has run, which is what a later exception leaves behind.\<close>

definition setdefault_observations :: "options \<Rightarrow> options" where
  "setdefault_observations opts =
     (case opts CONF_OBSERVATIONS of None \<Rightarrow> opts(CONF_OBSERVATIONS \<mapsto> DictList []) | Some v \<Rightarrow> opts)"

definition validate_observation_setup ::
    "options \<Rightarrow> pydict \<Rightarrow> (error + pydict) \<times> options \<times> pydict" where
  "validate_observation_setup opts user_input =
     (case user_input CONF_P_GIVEN_T of
        None \<Rightarrow> (Inl (KeyError CONF_P_GIVEN_T), opts, user_input)
      | Some p_given_t \<Rightarrow>
     (case user_input CONF_P_GIVEN_F of
        None \<Rightarrow> (Inl (KeyError CONF_P_GIVEN_F), opts, user_input)
      | Some p_given_f \<Rightarrow>
          if py_eq p_given_t p_given_f
          then (Inl (SchemaFlowError ''equal_probabilities''), opts, user_input)
          else
     (case user_input CONF_PLATFORM of
        None \<Rightarrow> (Inl (KeyError CONF_PLATFORM), opts, user_input)
      | Some platform \<Rightarrow>
          let add_another = dict_get user_input ''add_another'' (PBool False);
              popped = user_input(''add_another'' := None)
          in
     (case convert_percentages_to_fractions popped of
        Inl e \<Rightarrow> (Inl e, opts, popped)
      | Inr observation \<Rightarrow>
     (case store_observation opts observation of
        Inl e \<Rightarrow> (Inl e, setdefault_observations opts, popped)
      | Inr opts' \<Rightarrow>
          (Inr (if truthy add_another then [''add_another'' \<mapsto> PBool True] else Map.empty),
           opts', popped))))))"

section \<open>The preview websocket command\<close>

text \<open>
  A schema is a dictionary from markers to validators. A validator of the host either
  accepts a value or raises \<open>vol.Invalid\<close> with a message; the entry of the platform
  key holds a static string instead of a validator, and calling it would raise TypeError.
  The schema is listed in the order of its items, each marker by the key it stands for.
\<close>

datatype verdict = Accepted | Invalid string

datatype schema_value = Validator "pyval \<Rightarrow> verdict" | Static pyval

type_synonym schema = "(string \<times> schema_value) list"

text \<open>The loop of the inner function \<open>_validate\<close>, with the dictionary \<open>errors\<close> it fills.\<close>

fun validate_loop :: "schema \<Rightarrow> pydict \<Rightarrow> (string \<rightharpoonup> string) \<Rightarrow> error + (string \<rightharpoonup> string)" where
  "validate_loop [] user_input errors = Inr errors"
| "validate_loop ((key, validator) # rest) user_input errors =
     (case user_input key of
        None \<Rightarrow> validate_loop rest user_input errors
      | Some v \<Rightarrow>
          if key = CONF_PLATFORM then validate_loop rest user_input errors
          else
            (case validator of
               Static _ \<Rightarrow> Inl TypeError
             | Validator f \<Rightarrow>
                 (case f v of
                    Accepted \<Rightarrow> validate_loop rest user_input errors
                  | Invalid m \<Rightarrow> validate_loop rest user_input (errors(key \<mapsto> m)))))"

definition validate :: "schema \<Rightarrow> pydict \<Rightarrow> error + (string \<rightharpoonup> string)" where
  "validate schema user_input = validate_loop schema user_input Map.empty"

text \<open>The selectors of the host that the schema of the template step is built from.\<close>

record selectors =
  template_selector :: "pyval \<Rightarrow> verdict"
  number_selector :: "pyval \<Rightarrow> verdict"
  text_selector :: "pyval \<Rightarrow> verdict"
  cv_boolean :: "pyval \<Rightarrow> verdict"

text \<open>
  The schema of the form step \<open>CONFIG_FLOW[str(ObservationTypes.TEMPLATE)]\<close>, which
  \<open>OPTIONS_FLOW\<close> shares: \<open>TEMPLATE_SUBSCHEMA\<close> extended by \<open>SUBSCHEMA_BOILERPLATE\<close>
  and by \<open>ADD_ANOTHER_BOX_SCHEMA\<close>.
\<close>

definition template_step_schema :: "selectors \<Rightarrow> schema" where
  "template_step_schema sel =
     [(CONF_PLATFORM, Static (PStr CONF_TEMPLATE)),
      (CONF_VALUE_TEMPLATE, Validator (template_selector sel)),
      (CONF_P_GIVEN_T, Validator (number_selector sel)),
      (CONF_P_GIVEN_F, Validator (number_selector sel)),
      (CONF_NAME, Validator (text_selector sel)),
      (''add_another'', Validator (cv_boolean sel))]"

text \<open>
  What the command reads from the host: the flows in progress (a flow id that is not in
  progress raises), the config entries, and the entity registry.
\<close>

record hass =
  config_flows :: "string \<rightharpoonup> string"
  options_flows :: "string \<rightharpoonup> string"
  config_entries :: "string set"
  entries_for_config_entry :: "string \<Rightarrow> string list"

record message =
  msg_id :: nat
  msg_flow_id :: string
  msg_flow_type :: string
  msg_user_input :: pydict

record preview_entity =
  preview_name :: string
  preview_state_template :: pyval
  preview_registry_entry :: "string option"

datatype ws_out =
    ErrorResult nat string "string \<rightharpoonup> string"
  | SuccessResult nat

record connection =
  sent :: "ws_out list"
  subscriptions :: "nat \<rightharpoonup> preview_entity"

text \<open>The first part of the command: the flow is looked up, and for an options flow the registry entry.\<close>

definition lookup_flow :: "hass \<Rightarrow> message \<Rightarrow> error + string option" where
  "lookup_flow h msg =
     (if msg_flow_type msg = ''config_flow'' then
        (case config_flows h (msg_flow_id msg) of
           None \<Rightarrow> Inl UnknownFlow
         | Some handler \<Rightarrow> Inr None)
      else
        (case options_flows h (msg_flow_id msg) of
           None \<Rightarrow> Inl UnknownFlow
         | Some handler \<Rightarrow>
             if handler \<notin> config_entries h then Inl HomeAssistantError
             else Inr (case entries_for_config_entry h handler of [] \<Rightarrow> None | e # es \<Rightarrow> Some e)))"

text \<open>
  The command returns the exception it raises, if any, the connection afterwards and
  the preview entities it has created.
\<close>

definition ws_start_preview ::
    "hass \<Rightarrow> selectors \<Rightarrow> connection \<Rightarrow> message \<Rightarrow> (error + unit) \<times> connection \<times> preview_entity list" where
  "ws_start_preview h sel conn msg =
     (case lookup_flow h msg of
        Inl e \<Rightarrow> (Inl e, conn, [])
      | Inr entity_registry_entry \<Rightarrow>
     (case validate (template_step_schema sel) (msg_user_input msg) of
        Inl e \<Rightarrow> (Inl e, conn, [])
      | Inr errors \<Rightarrow>
          if errors \<noteq> Map.empty then
            (Inr (),
             conn\<lparr>sent := sent conn @ [ErrorResult (msg_id msg) ''invalid_user_input'' errors]\<rparr>,
             [])
          else
            (case msg_user_input msg ''value_template'' of
               None \<Rightarrow> (Inl (KeyError ''value_template''), conn, [])
             | Some t \<Rightarrow>
                 let preview = \<lparr>preview_name = ''Observation'', preview_state_template = t,
                                 preview_registry_entry = entity_registry_entry\<rparr>
                 in (Inr (),
                     conn\<lparr>sent := sent conn @ [SuccessResult (msg_id msg)],
                          subscriptions := (subscriptions conn)(msg_id msg \<mapsto> preview)\<rparr>,
                     [preview]))))"

text \<open>
  The errors as the specification describes them, to be compared with \<open>validate\<close>: an
  entry for every key of the schema other than the platform key that is present in the
  input and whose validator rejects the value, and no other entry.
\<close>

definition expected_errors :: "schema \<Rightarrow> pydict \<Rightarrow> (string \<rightharpoonup> string)" where
  "expected_errors schema user_input key =
     (case map_of schema key of
        Some (Validator f) \<Rightarrow>
          (if key = CONF_PLATFORM then None
           else (case user_input key of
                   None \<Rightarrow> None
                 | Some v \<Rightarrow> (case f v of Accepted \<Rightarrow> None | Invalid m \<Rightarrow> Some m)))
      | _ \<Rightarrow> None)"

section \<open>Evaluating the module\<close>

text \<open>
  Importing the module runs its top-level statements in order. A statement binds names
  and, while it is evaluated, reads names; reading a name that is neither bound yet nor
  a builtin raises NameError. The body of a function is evaluated when the function is
  called, not when it is defined; the calls that the top-level statements make are
  counted among their reads. Annotations are left out: all their names are imported, and
  whether they are evaluated with the definition depends on the Python version.
\<close>

datatype stmt = Stmt (binds: "string list") (reads: "string list")

fun exec_stmts :: "string list \<Rightarrow> stmt list \<Rightarrow> error + string list" where
  "exec_stmts env [] = Inr env"
| "exec_stmts env (s # ss) =
     (case find (\<lambda>n. n \<notin> set env) (reads s) of
        Some n \<Rightarrow> Inl (NameError n)
      | None \<Rightarrow> exec_stmts (binds s @ env) ss)"

definition builtins :: "string list" where
  "builtins = [''__name__'', ''staticmethod'', ''str'', ''dict'', ''int'', ''float'',
               ''list'', ''isinstance'', ''enumerate'']"

definition module_imports :: "stmt list" where
  "module_imports =
     [Stmt [''Mapping''] [],
      Stmt [''StrEnum''] [],
      Stmt [''logging''] [],
      Stmt [''Any'', ''cast''] [],
      Stmt [''vol''] [],
      Stmt [''websocket_api''] [],
      Stmt [''BINARY_SENSOR_DOMAIN'', ''BinarySensorDeviceClass''] [],
      Stmt [''INPUT_BOLEAN_DOMAIN''] [],
      Stmt [''INPUT_NUMBER_DOMAIN''] [],
      Stmt [''NUMBER_DOMAIN''] [],
      Stmt [''SENSOR_DOMAIN''] [],
      Stmt [''async_create_preview_sensor''] [],
      Stmt [''CONF_ABOVE'', ''CONF_BELOW'', ''CONF_DEVICE_CLASS'', ''CONF_ENTITY_ID'', ''CONF_NAME'',
            ''CONF_PLATFORM'', ''CONF_STATE'', ''CONF_VALUE_TEMPLATE''] [],
      Stmt [''HomeAssistant'', ''callback''] [],
      Stmt [''HomeAssistantError''] [],
      Stmt [''er'', ''selector''] [],
      Stmt [''cv''] [],
      Stmt [''SchemaCommonFlowHandler'', ''SchemaConfigFlowHandler'', ''SchemaFlowError'',
            ''SchemaFlowFormStep'', ''SchemaFlowMenuStep'', ''SchemaFlowStep''] [],
      Stmt [''result_as_boolean''] [],
      Stmt [''CONF_OBSERVATIONS'', ''CONF_P_GIVEN_F'', ''CONF_P_GIVEN_T'', ''CONF_PRIOR'',
            ''CONF_PROBABILITY_THRESHOLD'', ''CONF_TEMPLATE'', ''CONF_TO_STATE'', ''DEFAULT_NAME'',
            ''DEFAULT_PROBABILITY_THRESHOLD'', ''DOMAIN''] []]"

definition module_schemas :: "stmt list" where
  "module_schemas =
     [Stmt [''_LOGGER''] [''logging'', ''__name__''],
      Stmt [''ObservationTypes''] [''StrEnum'', ''CONF_STATE'', ''CONF_TEMPLATE'', ''staticmethod''],
      Stmt [''OPTIONS_SCHEMA'']
           [''vol'', ''CONF_PROBABILITY_THRESHOLD'', ''DEFAULT_PROBABILITY_THRESHOLD'', ''selector'',
            ''CONF_PRIOR'', ''CONF_DEVICE_CLASS'', ''BinarySensorDeviceClass''],
      Stmt [''CONFIG_SCHEMA''] [''vol'', ''CONF_NAME'', ''DEFAULT_NAME'', ''selector'', ''OPTIONS_SCHEMA''],
      Stmt [''SUBSCHEMA_BOILERPLATE'']
           [''vol'', ''CONF_P_GIVEN_T'', ''selector'', ''CONF_P_GIVEN_F'', ''CONF_NAME''],
      Stmt [''ADD_ANOTHER_BOX_SCHEMA''] [''vol'', ''cv''],
      Stmt [''STATE_SUBSCHEMA'']
           [''vol'', ''CONF_PLATFORM'', ''CONF_STATE'', ''CONF_ENTITY_ID'', ''selector'', ''SENSOR_DOMAIN'',
            ''BINARY_SENSOR_DOMAIN'', ''INPUT_BOLEAN_DOMAIN'', ''CONF_TO_STATE'', ''SUBSCHEMA_BOILERPLATE''],
      Stmt [''NUMERIC_STATE_SUBSCHEMA'']
           [''vol'', ''CONF_PLATFORM'', ''str'', ''ObservationTypes'', ''CONF_ENTITY_ID'', ''selector'',
            ''SENSOR_DOMAIN'', ''INPUT_NUMBER_DOMAIN'', ''NUMBER_DOMAIN'', ''CONF_ABOVE'', ''CONF_BELOW'',
            ''SUBSCHEMA_BOILERPLATE''],
      Stmt [''TEMPLATE_SUBSCHEMA'']
           [''vol'', ''CONF_PLATFORM'', ''str'', ''ObservationTypes'', ''CONF_VALUE_TEMPLATE'', ''selector'',
            ''SUBSCHEMA_BOILERPLATE''],
      Stmt [''ConfigFlowSteps''] [''StrEnum''],
      Stmt [''OptionsFlowSteps''] [''StrEnum'', ''str'', ''ConfigFlowSteps'', ''staticmethod'']]"

definition module_functions :: "stmt list" where
  "module_functions =
     [Stmt [''_convert_percentages_to_fractions''] [],
      Stmt [''_convert_fractions_to_percentages''] [],
      Stmt [''_get_select_observation_schema''] [],
      Stmt [''_get_remove_observation_schema''] [],
      Stmt [''_get_edit_observation_schema''] [],
      Stmt [''_choose_observation_step''] [],
      Stmt [''_get_base_suggested_values''] [],
      Stmt [''_get_edit_observation_suggested_values''] [],
      Stmt [''_validate_user''] [],
      Stmt [''_validate_observation_setup''] []]"

definition CONFIG_FLOW_stmt :: stmt where
  "CONFIG_FLOW_stmt =
     Stmt [''CONFIG_FLOW'']
          [''str'', ''ConfigFlowSteps'', ''SchemaFlowFormStep'', ''CONFIG_SCHEMA'', ''_validate_user'',
           ''SchemaFlowMenuStep'', ''ObservationTypes'', ''STATE_SUBSCHEMA'', ''ADD_ANOTHER_BOX_SCHEMA'',
           ''_choose_observation_step'', ''_validate_observation_setup'', ''NUMERIC_STATE_SUBSCHEMA'',
           ''TEMPLATE_SUBSCHEMA'']"

definition OPTIONS_FLOW_stmt :: stmt where
  "OPTIONS_FLOW_stmt =
     Stmt [''OPTIONS_FLOW'']
          [''str'', ''OptionsFlowSteps'', ''SchemaFlowMenuStep'', ''SchemaFlowFormStep'', ''OPTIONS_SCHEMA'',
           ''_get_base_suggested_values'', ''_validate_user'', ''_get_select_observation_schema'',
           ''_get_edit_observation_schema'', ''_get_edit_observation_suggested_values'',
           ''_validate_observation_setup'', ''_get_remove_observation_schema'',
           ''_validate_remove_observation'']"

definition module_rest :: "stmt list" where
  "module_rest =
     [Stmt [] [''OPTIONS_FLOW'', ''CONFIG_FLOW''],
      Stmt [''BayesianConfigFlowHandler'']
           [''SchemaConfigFlowHandler'', ''DOMAIN'', ''CONFIG_FLOW'', ''OPTIONS_FLOW'', ''staticmethod''],
      Stmt [''ws_start_preview''] [''websocket_api'', ''vol'', ''str'', ''dict'', ''callback'']]"

definition module_before_OPTIONS_FLOW :: "stmt list" where
  "module_before_OPTIONS_FLOW =
     module_imports @ module_schemas @ module_functions @ [CONFIG_FLOW_stmt]"

definition config_flow_module :: "stmt list" where
  "config_flow_module = module_before_OPTIONS_FLOW @ [OPTIONS_FLOW_stmt] @ module_rest"

section \<open>Example inputs\<close>

text \<open>A form input for an observation, the observation it is stored as, and an older observation.\<close>

definition example_input :: pydict where
  "example_input =
     [CONF_P_GIVEN_T \<mapsto> PFloat (Finite 50), CONF_P_GIVEN_F \<mapsto> PFloat (Finite 25),
      CONF_PLATFORM \<mapsto> PStr ''state'', ''add_another'' \<mapsto> PBool True]"

definition example_observation :: pydict where
  "example_observation =
     [CONF_P_GIVEN_T \<mapsto> PFloat (Finite (1 / 2)), CONF_P_GIVEN_F \<mapsto> PFloat (Finite (1 / 4)),
      CONF_PLATFORM \<mapsto> PStr ''state'']"

definition older_observation :: pydict where
  "older_observation =
     [CONF_P_GIVEN_T \<mapsto> PFloat (Finite (3 / 4)), CONF_P_GIVEN_F \<mapsto> PFloat (Finite (1 / 4)),
      CONF_PLATFORM \<mapsto> PStr ''template'']"

text \<open>
  A preview request of a config flow in progress whose first probability is not a number,
  with selectors of which the number selector rejects what is not a number.
\<close>

definition example_selectors :: selectors where
  "example_selectors =
     \<lparr>template_selector = (\<lambda>v. Accepted),
      number_selector = (\<lambda>v. if is_int_or_float v then Accepted else Invalid ''expected float''),
      text_selector = (\<lambda>v. Accepted),
      cv_boolean = (\<lambda>v. Accepted)\<rparr>"

definition example_hass :: hass where
  "example_hass =
     \<lparr>config_flows = [''flow'' \<mapsto> ''bayesian''], options_flows = Map.empty,
      config_entries = {}, entries_for_config_entry = (\<lambda>handler. [])\<rparr>"

definition example_message :: message where
  "example_message =
     \<lparr>msg_id = 7, msg_flow_id = ''flow'', msg_flow_type = ''config_flow'',
      msg_user_input = [CONF_VALUE_TEMPLATE \<mapsto> PStr ''t'', CONF_P_GIVEN_T \<mapsto> PStr ''high'']\<rparr>"

section \<open>Properties of the rounding\<close>

lemma quotient_of_abs_pos:
  assumes "q \<noteq> 0" "quotient_of \<bar>q\<bar> = (a, b)"
  shows "0 < a" "0 < b" "\<bar>q\<bar> = of_int a / of_int b"
proof -
  show b: "0 < b" using assms(2) by (rule quotient_of_denom_pos)
  show eq: "\<bar>q\<bar> = of_int a / of_int b" using assms(2) by (rule quotient_of_div)
  have "0 < \<bar>q\<bar>" using assms(1) by simp
  then have "0 < (of_int a :: rat) / of_int b" using eq by simp
  then show "0 < a" using b by (simp add: zero_less_divide_iff)
qed

lemma bitlen_powi_bounds:
  assumes "0 < x"
  shows "(2::rat) powi (bitlen x - 1) \<le> of_int x" "of_int x < (2::rat) powi bitlen x"
proof -
  have nn: "0 \<le> bitlen x - 1"
    using assms bitlen_eq_zero_iff[of x] bitlen_nonneg[of x] by linarith
  from bitlen_bounds[OF assms] have 1: "2 ^ nat (bitlen x - 1) \<le> x" and 2: "x < 2 ^ nat (bitlen x)"
    by auto
  have "(of_int (2 ^ nat (bitlen x - 1)) :: rat) \<le> of_int x" using 1 by (simp only: of_int_le_iff)
  then show "(2::rat) powi (bitlen x - 1) \<le> of_int x"
    using nn by (simp add: power_int_nonneg_exp)
  have "(of_int x :: rat) < of_int (2 ^ nat (bitlen x))" using 2 by (simp only: of_int_less_iff)
  then show "of_int x < (2::rat) powi bitlen x"
    using nn by (simp add: power_int_nonneg_exp)
qed

lemma ilog2_bounds:
  assumes "q \<noteq> 0"
  shows "2 powi ilog2 q \<le> \<bar>q\<bar> \<and> \<bar>q\<bar> < 2 powi (ilog2 q + 1)"
proof -
  obtain a b where ab: "quotient_of \<bar>q\<bar> = (a, b)" by (cases "quotient_of \<bar>q\<bar>")
  note p = quotient_of_abs_pos[OF assms ab]
  define e where "e = bitlen a - bitlen b"
  note ba = bitlen_powi_bounds[OF p(1)] and bb = bitlen_powi_bounds[OF p(2)]
  have bpos: "(0::rat) < of_int b" using p(2) by simp
  have lo: "2 powi (e - 1) \<le> \<bar>q\<bar>"
  proof -
    have "(2::rat) powi (e - 1) * of_int b \<le> 2 powi (e - 1) * 2 powi bitlen b"
      using bb(2) by (intro mult_left_mono) auto
    also have "\<dots> = 2 powi (bitlen a - 1)"
      by (simp add: e_def power_int_add[symmetric])
    also have "\<dots> \<le> of_int a" by (rule ba(1))
    finally show ?thesis using bpos by (simp add: p(3) pos_le_divide_eq)
  qed
  have hi: "\<bar>q\<bar> < 2 powi (e + 1)"
  proof -
    have "of_int a < (2::rat) powi bitlen a" by (rule ba(2))
    also have "\<dots> = 2 powi (e + 1) * 2 powi (bitlen b - 1)"
      by (simp add: e_def power_int_add[symmetric])
    also have "\<dots> \<le> 2 powi (e + 1) * of_int b"
      using bb(1) by (intro mult_left_mono) auto
    finally show ?thesis using bpos by (simp add: p(3) pos_divide_less_eq)
  qed
  show ?thesis
  proof (cases "2 powi e \<le> \<bar>q\<bar>")
    case True
    then have "ilog2 q = e" by (simp add: ilog2_def ab e_def)
    then show ?thesis using True hi by simp
  next
    case False
    then have "ilog2 q = e - 1" by (simp add: ilog2_def ab e_def)
    then show ?thesis using False lo by simp
  qed
qed

lemma powi2_less_imp_less:
  assumes "(2::rat) powi a < 2 powi b"
  shows "a < b"
proof (rule ccontr)
  assume "\<not> a < b"
  then have "b \<le> a" by simp
  then have "(2::rat) powi b \<le> 2 powi a" by (intro power_int_increasing) auto
  with assms show False by simp
qed

lemma powi2_add: "(2::rat) powi (a + b) = 2 powi a * 2 powi b"
  by (rule power_int_add) simp

lemma abs_pos_of_powi_le:
  assumes "(2::rat) powi e \<le> \<bar>q\<bar>"
  shows "q \<noteq> 0"
proof -
  have "0 < (2::rat) powi e" by simp
  then have "0 < \<bar>q\<bar>" using assms by (rule less_le_trans)
  then show ?thesis by simp
qed

lemma ilog2_eqI:
  assumes "2 powi e \<le> \<bar>q\<bar>" "\<bar>q\<bar> < 2 powi (e + 1)"
  shows "ilog2 q = e"
proof -
  have "q \<noteq> 0" using assms(1) by (rule abs_pos_of_powi_le)
  from ilog2_bounds[OF this] have b: "2 powi ilog2 q \<le> \<bar>q\<bar>" "\<bar>q\<bar> < 2 powi (ilog2 q + 1)" by auto
  have "(2::rat) powi e < 2 powi (ilog2 q + 1)" using assms(1) b(2) by simp
  then have 1: "e < ilog2 q + 1" by (rule powi2_less_imp_less)
  have "(2::rat) powi ilog2 q < 2 powi (e + 1)" using assms(2) b(1) by simp
  then have 2: "ilog2 q < e + 1" by (rule powi2_less_imp_less)
  show ?thesis using 1 2 by simp
qed

lemma round_half_even_eqI:
  assumes "\<bar>x - of_int m\<bar> < 1 / 2"
  shows "round_half_even x = m"
proof -
  have lo: "of_int m - 1 / 2 < x" and hi: "x < of_int m + 1 / 2"
    using assms by linarith+
  have "\<lfloor>x\<rfloor> = m \<or> \<lfloor>x\<rfloor> = m - 1" using lo hi by linarith
  then show ?thesis
  proof
    assume f: "\<lfloor>x\<rfloor> = m"
    have "x - of_int m < 1 / 2" using hi by linarith
    then show ?thesis using f by (simp add: round_half_even_def Let_def)
  next
    assume f: "\<lfloor>x\<rfloor> = m - 1"
    have "1 / 2 < x - of_int (m - 1)" using lo by simp
    then show ?thesis using f by (simp add: round_half_even_def Let_def)
  qed
qed

lemma round_half_even_abs_le: "\<bar>of_int (round_half_even x) - x\<bar> \<le> 1 / 2"
proof -
  have f: "of_int \<lfloor>x\<rfloor> \<le> x" "x < of_int \<lfloor>x\<rfloor> + 1" by linarith+
  show ?thesis
    unfolding round_half_even_def Let_def using f by (auto simp: abs_le_iff)
qed

text \<open>How a rounding is evaluated: the exponent and the significand are given and checked.\<close>

lemma round_double_eqI:
  assumes "2 powi e \<le> \<bar>q\<bar>" "\<bar>q\<bar> < 2 powi (e + 1)" "- 1022 \<le> e"
    and "\<bar>q / 2 powi (e - 52) - of_int m\<bar> < 1 / 2"
  shows "round_double q = of_int m * 2 powi (e - 52)"
proof -
  have q: "q \<noteq> 0" using assms(1) by (rule abs_pos_of_powi_le)
  have "ilog2 q = e" using assms(1,2) by (rule ilog2_eqI)
  then have u: "ulp_exp q = e - 52" using assms(3) by (simp add: ulp_exp_def)
  show ?thesis using q round_half_even_eqI[OF assms(4)] by (simp add: round_double_def u)
qed

text \<open>In the normal range a rounding has a relative error of at most \<open>2 powi - 53\<close>.\<close>

lemma round_double_error:
  assumes "2 powi (- 1022) \<le> \<bar>q\<bar>"
  shows "\<bar>round_double q - q\<bar> \<le> \<bar>q\<bar> * 2 powi (- 53)"
proof -
  have q: "q \<noteq> 0" using assms by (rule abs_pos_of_powi_le)
  define e where "e = ilog2 q"
  from ilog2_bounds[OF q] have b: "2 powi e \<le> \<bar>q\<bar>" "\<bar>q\<bar> < 2 powi (e + 1)"
    by (auto simp: e_def)
  have "(2::rat) powi (- 1022) < 2 powi (e + 1)" using assms b(2) by simp
  then have "- 1022 < e + 1" by (rule powi2_less_imp_less)
  then have u: "ulp_exp q = e - 52" by (simp add: ulp_exp_def e_def)
  define u where "u = (2::rat) powi (e - 52)"
  have upos: "0 < u" by (simp add: u_def)
  define m where "m = round_half_even (q / u)"
  have rd: "round_double q = of_int m * u"
    using q by (simp add: round_double_def \<open>ulp_exp q = e - 52\<close> m_def u_def)
  have "\<bar>of_int m * u - q\<bar> = \<bar>of_int m - q / u\<bar> * u"
  proof -
    have "of_int m * u - q = (of_int m - q / u) * u" using upos by (simp add: field_simps)
    then show ?thesis using upos by (simp add: abs_mult)
  qed
  also have "\<dots> \<le> 1 / 2 * u"
    using round_half_even_abs_le[of "q / u"] upos unfolding m_def by (intro mult_right_mono) auto
  also have "\<dots> = 2 powi e * 2 powi (- 53)"
  proof -
    have "(2::rat) powi e = 2 powi (e - 52) * 2 powi 52"
      using powi2_add[of "e - 52" 52] by simp
    then show ?thesis by (simp add: u_def power_int_minus)
  qed
  also have "\<dots> \<le> \<bar>q\<bar> * 2 powi (- 53)" using b(1) by (intro mult_right_mono) auto
  finally show ?thesis by (simp add: rd)
qed

lemma round_double_0 [simp]: "round_double 0 = 0"
  by (simp add: round_double_def)

lemma round_half_even_ge:
  assumes "of_int n \<le> x"
  shows "n \<le> round_half_even x"
proof -
  have "n \<le> \<lfloor>x\<rfloor>" using assms by (simp add: le_floor_iff)
  moreover have "\<lfloor>x\<rfloor> \<le> round_half_even x" by (simp add: round_half_even_def Let_def)
  ultimately show ?thesis by simp
qed

lemma round_half_even_le:
  assumes "x \<le> of_int n"
  shows "round_half_even x \<le> n"
proof (cases "x = of_int n")
  case True
  have "round_half_even (of_int n) = n" by (rule round_half_even_eqI) simp
  then show ?thesis using True by simp
next
  case False
  then have "x < of_int n" using assms by simp
  then have "\<lfloor>x\<rfloor> < n" by (simp add: floor_less_iff)
  moreover have "round_half_even x \<le> \<lfloor>x\<rfloor> + 1" by (simp add: round_half_even_def Let_def)
  ultimately show ?thesis by simp
qed

text \<open>A quotient of magnitude \<open>2 ^ 1024\<close> or more overflows; one of at most \<open>2 ^ 1023\<close> does not.\<close>

lemma overflows_if_large:
  assumes "2 ^ 1024 \<le> \<bar>q\<bar>"
  shows "overflows q"
proof -
  have a: "2 powi 1024 \<le> \<bar>q\<bar>" using assms by simp
  then have q: "q \<noteq> 0" by (rule abs_pos_of_powi_le)
  define e where "e = ilog2 q"
  from ilog2_bounds[OF q] have b: "2 powi e \<le> \<bar>q\<bar>" "\<bar>q\<bar> < 2 powi (e + 1)"
    by (auto simp: e_def)
  have "(2::rat) powi 1024 < 2 powi (e + 1)" using a b(2) by (rule le_less_trans)
  then have e: "1024 < e + 1" by (rule powi2_less_imp_less)
  then have u: "ulp_exp q = e - 52" by (simp add: ulp_exp_def e_def)
  define u where "u = (2::rat) powi (e - 52)"
  have upos: "0 < u" by (simp add: u_def)
  have eu: "(2::rat) powi e = 2 ^ 52 * u"
    using powi2_add[of 52 "e - 52"] by (simp add: u_def)
  have m: "2 ^ 52 \<le> \<bar>round_half_even (q / u)\<bar>"
  proof (cases "0 \<le> q")
    case True
    then have "of_int (2 ^ 52) \<le> q / u" using b(1) upos by (simp add: eu pos_le_divide_eq)
    then have "2 ^ 52 \<le> round_half_even (q / u)" by (rule round_half_even_ge)
    then show ?thesis by simp
  next
    case False
    then have "2 ^ 52 * u \<le> - q" using b(1) by (simp add: eu)
    then have "q \<le> - (2 ^ 52) * u" by simp
    then have "q / u \<le> of_int (- (2 ^ 52))" using upos by (simp add: pos_divide_le_eq)
    then have "round_half_even (q / u) \<le> - (2 ^ 52)" by (rule round_half_even_le)
    then show ?thesis by simp
  qed
  have rd: "round_double q = of_int (round_half_even (q / u)) * u"
    using q by (simp add: round_double_def \<open>ulp_exp q = e - 52\<close> u_def)
  have "(2::rat) ^ 1024 \<le> 2 powi e" using e power_int_increasing[of 1024 e "2::rat"] by simp
  also have "\<dots> = of_int (2 ^ 52) * u" by (simp add: eu)
  also have "\<dots> \<le> of_int \<bar>round_half_even (q / u)\<bar> * u"
  proof (rule mult_right_mono)
    show "(of_int (2 ^ 52) :: rat) \<le> of_int \<bar>round_half_even (q / u)\<bar>"
      using m by (simp only: of_int_le_iff)
    show "0 \<le> u" using upos by simp
  qed
  also have "\<dots> = \<bar>round_double q\<bar>" using upos by (simp add: rd abs_mult)
  finally show ?thesis by (simp add: overflows_def)
qed

lemma not_overflows_if_small:
  assumes "\<bar>q\<bar> \<le> 2 ^ 1023"
  shows "\<not> overflows q"
proof (cases "2 powi (- 1022) \<le> \<bar>q\<bar>")
  case True
  from round_double_error[OF True]
  have "\<bar>round_double q\<bar> \<le> \<bar>q\<bar> + \<bar>q\<bar> * 2 powi (- 53)" by linarith
  also have "\<dots> \<le> \<bar>q\<bar> + \<bar>q\<bar> * (1 / 2)"
    by (intro add_left_mono mult_left_mono) (simp_all add: power_int_minus)
  also have "\<dots> \<le> 2 ^ 1023 + 2 ^ 1023 * (1 / 2)" using assms by simp
  also have "\<dots> < (2::rat) ^ 1024" by simp
  finally show ?thesis by (simp add: overflows_def)
next
  case False
  then have small: "\<bar>q\<bar> < 2 powi (- 1022)" by simp
  show ?thesis
  proof (cases "q = 0")
    case True
    then show ?thesis by (simp add: overflows_def)
  next
    case q: False
    from ilog2_bounds[OF q] have "(2::rat) powi ilog2 q < 2 powi (- 1022)"
      using small by simp
    then have "ilog2 q < - 1022" by (rule powi2_less_imp_less)
    then have u: "ulp_exp q = - 1074" by (simp add: ulp_exp_def)
    define u where "u = (2::rat) powi (- 1074)"
    have upos: "0 < u" by (simp add: u_def)
    have rd: "round_double q = of_int (round_half_even (q / u)) * u"
      using q by (simp add: round_double_def \<open>ulp_exp q = - 1074\<close> u_def)
    have "\<bar>of_int (round_half_even (q / u)) * u - q\<bar> = \<bar>of_int (round_half_even (q / u)) - q / u\<bar> * u"
    proof -
      have "of_int (round_half_even (q / u)) * u - q = (of_int (round_half_even (q / u)) - q / u) * u"
        using upos by (simp add: field_simps)
      then show ?thesis using upos by (simp add: abs_mult)
    qed
    also have "\<dots> \<le> 1 / 2 * u"
      using round_half_even_abs_le[of "q / u"] upos by (intro mult_right_mono) auto
    finally have "\<bar>round_double q\<bar> \<le> \<bar>q\<bar> + 1 / 2 * u" unfolding rd by linarith
    also have "\<dots> < 2 powi (- 1022) + 1 / 2 * u" using small by simp
    also have "\<dots> \<le> 1 + 1" 
      by (intro add_mono) (simp_all add: u_def power_int_minus field_simps)
    also have "\<dots> \<le> (2::rat) ^ 1024" by simp
    finally show ?thesis by (simp add: overflows_def)
  qed
qed

section \<open>Properties of the unit conversion\<close>

lemmas conf_defs = CONF_P_GIVEN_T_def CONF_P_GIVEN_F_def CONF_PRIOR_def
  CONF_PROBABILITY_THRESHOLD_def CONF_OBSERVATIONS_def CONF_PLATFORM_def CONF_STATE_def
  CONF_TEMPLATE_def CONF_NAME_def CONF_VALUE_TEMPLATE_def

text \<open>The test of the conversion, with the value of the key named.\<close>

lemma convert_percentages_to_fractions_alt:
  "convert_percentages_to_fractions data =
     (if \<exists>key \<in> set percentages. \<exists>val. data key = Some val \<and> isl (fraction_item key val)
      then Inl OverflowError
      else Inr (\<lambda>key. map_option (\<lambda>val. projr (fraction_item key val)) (data key)))"
proof -
  have "(\<exists>key \<in> set percentages.
           (case data key of None \<Rightarrow> False | Some val \<Rightarrow> isl (fraction_item key val))) \<longleftrightarrow>
        (\<exists>key \<in> set percentages. \<exists>val. data key = Some val \<and> isl (fraction_item key val))"
    by (auto split: option.splits)
  then show ?thesis by (simp add: convert_percentages_to_fractions_def)
qed

lemma int_truediv_100_error: "int_truediv_100 n = Inl e \<Longrightarrow> e = OverflowError"
  by (simp split: if_splits)

lemma not_overflows_bool: "\<not> overflows (of_int (int_of_bool b) / 100)"
  by (rule not_overflows_if_small) (cases b; simp)

lemma truediv_100_isl_iff:
  "is_int_or_float v \<Longrightarrow> isl (truediv_100 v) \<longleftrightarrow> (\<exists>n. v = PInt n \<and> overflows (of_int n / 100))"
proof (cases v)
  case (PFloat f)
  then show ?thesis by (cases f) simp_all
qed (simp_all add: not_overflows_bool)

lemma fraction_item_isl_iff:
  "isl (fraction_item key v) \<longleftrightarrow>
     key \<in> set percentages \<and> (\<exists>n. v = PInt n \<and> overflows (of_int n / 100))"
  using truediv_100_isl_iff[of v] by (auto simp: fraction_item_def)

text \<open>When the first conversion raises, and what it returns otherwise.\<close>

lemma convert_percentages_to_fractions_Inl_iff:
  "convert_percentages_to_fractions d = Inl e \<longleftrightarrow>
     e = OverflowError \<and>
     (\<exists>key \<in> set percentages. \<exists>n. d key = Some (PInt n) \<and> overflows (of_int n / 100))"
  by (auto simp: convert_percentages_to_fractions_alt fraction_item_isl_iff)

lemma convert_percentages_to_fractions_Inr:
  assumes "convert_percentages_to_fractions d = Inr r"
  shows "r key = map_option (\<lambda>v. projr (fraction_item key v)) (d key)"
  using assms by (auto simp: convert_percentages_to_fractions_alt split: if_splits)

lemma convert_percentages_to_fractions_dom:
  assumes "convert_percentages_to_fractions d = Inr r"
  shows "dom r = dom d"
  using convert_percentages_to_fractions_Inr[OF assms] by (auto simp: dom_def)

lemma convert_percentages_to_fractions_item:
  assumes "convert_percentages_to_fractions d = Inr r" "d key = Some v"
  shows "fraction_item key v = Inr (the (r key))"
proof -
  have r: "r key = Some (projr (fraction_item key v))"
    using convert_percentages_to_fractions_Inr[OF assms(1), of key] assms(2) by simp
  have "\<not> isl (fraction_item key v)"
  proof
    assume i: "isl (fraction_item key v)"
    then have "key \<in> set percentages" by (simp add: fraction_item_isl_iff)
    with i assms show False
      by (auto simp: convert_percentages_to_fractions_alt split: if_splits)
  qed
  then show ?thesis using r by (cases "fraction_item key v") simp_all
qed

lemma round_double_half: "round_double (1 / 2) = 1 / 2"
  using round_double_eqI[of "- 1" "1 / 2" "2 ^ 52"] by (simp add: power_int_minus)

lemma fl_half: "fl (1 / 2) = Finite (1 / 2)"
  using not_overflows_if_small[of "1 / 2"] by (simp add: fl_def round_double_half)

lemma percent_dict_fractions:
  "convert_percentages_to_fractions [CONF_PRIOR \<mapsto> PFloat (Finite 50), CONF_NAME \<mapsto> PStr ''x''] =
     Inr [CONF_PRIOR \<mapsto> PFloat (Finite (1 / 2)), CONF_NAME \<mapsto> PStr ''x'']"
proof -
  let ?d = "[CONF_PRIOR \<mapsto> PFloat (Finite 50), CONF_NAME \<mapsto> PStr ''x'']"
  have no: "\<not> (\<exists>key \<in> set percentages. \<exists>val. ?d key = Some val \<and> isl (fraction_item key val))"
    by (auto simp: fraction_item_isl_iff split: if_splits)
  have "(\<lambda>key. map_option (\<lambda>val. projr (fraction_item key val)) (?d key)) =
        [CONF_PRIOR \<mapsto> PFloat (Finite (1 / 2)), CONF_NAME \<mapsto> PStr ''x'']"
    by (rule ext) (simp add: fraction_item_def percentages_def conf_defs fl_half)
  then show ?thesis using no unfolding convert_percentages_to_fractions_alt by simp
qed

text \<open>
  C4, as the sources have it. The first conversion raises OverflowError exactly when an
  int under one of the four keys is too large for its hundredth to be a float. Otherwise
  it returns a dictionary with the keys of its input, in which the value of an int, bool
  or float under one of the four keys is that value divided by 100 and every other value
  is the one of the input. The second conversion never raises: its result has the keys of
  its input, an int, bool or float under one of the four keys is multiplied by 100 and
  every other value is the one of the input.
\<close>

theorem convert_percentages_fractions_entries:
  "(case convert_percentages_to_fractions d of
      Inl e \<Rightarrow> e = OverflowError \<and>
        (\<exists>key \<in> set percentages. \<exists>n. d key = Some (PInt n) \<and> overflows (of_int n / 100))
    | Inr r \<Rightarrow> dom r = dom d \<and>
        (\<forall>key v. d key = Some v \<longrightarrow>
           (if is_int_or_float v \<and> key \<in> set percentages
            then \<exists>w. truediv_100 v = Inr w \<and> r key = Some w
            else r key = Some v))) \<and>
   dom (convert_fractions_to_percentages d) = dom d \<and>
   (\<forall>key v. d key = Some v \<longrightarrow>
      convert_fractions_to_percentages d key =
        Some (if is_int_or_float v \<and> key \<in> set percentages then mul_100 v else v))"
proof (intro conjI)
  show "case convert_percentages_to_fractions d of
      Inl e \<Rightarrow> e = OverflowError \<and>
        (\<exists>key \<in> set percentages. \<exists>n. d key = Some (PInt n) \<and> overflows (of_int n / 100))
    | Inr r \<Rightarrow> dom r = dom d \<and>
        (\<forall>key v. d key = Some v \<longrightarrow>
           (if is_int_or_float v \<and> key \<in> set percentages
            then \<exists>w. truediv_100 v = Inr w \<and> r key = Some w
            else r key = Some v))"
  proof (cases "convert_percentages_to_fractions d")
    case (Inl e)
    then show ?thesis using convert_percentages_to_fractions_Inl_iff[of d e] by simp
  next
    case (Inr r)
    have "\<exists>w. truediv_100 v = Inr w \<and> r key = Some w"
      if "d key = Some v" "is_int_or_float v" "key \<in> set percentages" for key v
    proof -
      have "fraction_item key v = Inr (the (r key))"
        using Inr that(1) by (rule convert_percentages_to_fractions_item)
      moreover have "r key \<noteq> None"
        using convert_percentages_to_fractions_dom[OF Inr] that(1) by blast
      ultimately show ?thesis using that(2,3) by (auto simp: fraction_item_def)
    qed
    moreover have "r key = Some v"
      if "d key = Some v" "\<not> (is_int_or_float v \<and> key \<in> set percentages)" for key v
      using convert_percentages_to_fractions_Inr[OF Inr, of key] that
      by (auto simp: fraction_item_def)
    ultimately show ?thesis
      using Inr convert_percentages_to_fractions_dom[OF Inr] by auto
  qed
  show "dom (convert_fractions_to_percentages d) = dom d"
    by (auto simp: convert_fractions_to_percentages_def dom_def)
  show "\<forall>key v. d key = Some v \<longrightarrow>
      convert_fractions_to_percentages d key =
        Some (if is_int_or_float v \<and> key \<in> set percentages then mul_100 v else v)"
    by (simp add: convert_fractions_to_percentages_def percentage_item_def)
qed

theorem convert_percentages_fractions_entries_witness:
  "dom [CONF_PRIOR \<mapsto> PFloat (Finite (1 / 2)), CONF_NAME \<mapsto> PStr ''x''] =
     dom [CONF_PRIOR \<mapsto> PFloat (Finite 50), CONF_NAME \<mapsto> PStr ''x''] \<and>
   truediv_100 (PFloat (Finite 50)) = Inr (PFloat (Finite (1 / 2))) \<and>
   convert_fractions_to_percentages [CONF_PRIOR \<mapsto> PInt 2, CONF_NAME \<mapsto> PStr ''x''] CONF_PRIOR =
     Some (PInt 200) \<and>
   convert_fractions_to_percentages [CONF_PRIOR \<mapsto> PInt 2, CONF_NAME \<mapsto> PStr ''x''] CONF_NAME =
     Some (PStr ''x'')"
  using convert_percentages_fractions_entries
          [of "[CONF_PRIOR \<mapsto> PFloat (Finite 50), CONF_NAME \<mapsto> PStr ''x'']",
           unfolded percent_dict_fractions, THEN conjunct1]
        convert_percentages_fractions_entries
          [of "[CONF_PRIOR \<mapsto> PInt 2, CONF_NAME \<mapsto> PStr ''x'']", THEN conjunct2]
  by (simp add: percentages_def conf_defs fl_half)

text \<open>
  C4, as the spec states it, fails on an int that is too large: the first conversion then
  returns no dictionary at all.
\<close>

theorem convert_percentages_huge_int:
  "convert_percentages_to_fractions [CONF_PRIOR \<mapsto> PInt (2 ^ 1040)] = Inl OverflowError"
proof -
  have "overflows (of_int (2 ^ 1040) / 100)"
  proof (rule overflows_if_large)
    have "(2::rat) ^ 1040 = 2 ^ 1024 * 2 ^ 16" by (simp only: power_add[symmetric]) simp
    moreover have "(2::rat) ^ 1024 * 1 \<le> 2 ^ 1024 * (2 ^ 16 / 100)"
      by (rule mult_left_mono) simp_all
    ultimately show "(2::rat) ^ 1024 \<le> \<bar>of_int (2 ^ 1040) / 100\<bar>"
      by (simp only: of_int_power of_int_numeral abs_divide power_abs abs_numeral
            times_divide_eq_right mult_1_right)
  qed
  then show ?thesis
    unfolding convert_percentages_to_fractions_Inl_iff by (simp add: percentages_def)
qed

section \<open>Validation of the base options\<close>

lemma convert_percentages_to_fractions_not_flow_error:
  "convert_percentages_to_fractions d \<noteq> Inl (SchemaFlowError key)"
  using convert_percentages_to_fractions_Inl_iff[of d "SchemaFlowError key"] by simp

lemma convert_percentages_to_fractions_outcome:
  "case convert_percentages_to_fractions d of
      Inl e \<Rightarrow> e = OverflowError \<and>
        (\<exists>key \<in> set percentages. \<exists>n. d key = Some (PInt n) \<and> overflows (of_int n / 100))
    | Inr r \<Rightarrow> dom r = dom d \<and>
        (\<forall>key v. d key = Some v \<longrightarrow>
           (if is_int_or_float v \<and> key \<in> set percentages
            then \<exists>w. truediv_100 v = Inr w \<and> r key = Some w
            else r key = Some v))"
proof (cases "convert_percentages_to_fractions d")
  case (Inl e)
  then show ?thesis using convert_percentages_to_fractions_Inl_iff[of d e] by simp
next
  case (Inr r)
  have "\<exists>w. truediv_100 v = Inr w \<and> r key = Some w"
    if "d key = Some v" "is_int_or_float v" "key \<in> set percentages" for key v
  proof -
    have "fraction_item key v = Inr (the (r key))"
      using Inr that(1) by (rule convert_percentages_to_fractions_item)
    moreover have "r key \<noteq> None"
      using convert_percentages_to_fractions_dom[OF Inr] that(1) by blast
    ultimately show ?thesis using that(2,3) by (auto simp: fraction_item_def)
  qed
  moreover have "r key = Some v"
    if "d key = Some v" "\<not> (is_int_or_float v \<and> key \<in> set percentages)" for key v
    using convert_percentages_to_fractions_Inr[OF Inr, of key] that
    by (auto simp: fraction_item_def)
  ultimately show ?thesis
    using Inr convert_percentages_to_fractions_dom[OF Inr] by auto
qed

lemma hundredth_of_huge_int_overflows: "overflows (of_int (2 ^ 1040) / 100)"
proof (rule overflows_if_large)
  have "(2::rat) ^ 1040 = 2 ^ 1024 * 2 ^ 16" by (simp only: power_add[symmetric]) simp
  moreover have "(2::rat) ^ 1024 * 1 \<le> 2 ^ 1024 * (2 ^ 16 / 100)"
    by (rule mult_left_mono) simp_all
  ultimately show "(2::rat) ^ 1024 \<le> \<bar>of_int (2 ^ 1040) / 100\<bar>"
    by (simp only: of_int_power of_int_numeral abs_divide power_abs abs_numeral
          times_divide_eq_right mult_1_right)
qed

text \<open>
  C2, as the sources have it. With the prior and the threshold in the input, the
  validation raises a SchemaFlowError exactly when the prior equals 0 or 100 or the
  threshold equals 0 or 100; the key of the error is the one of the first of these tests
  that holds, in the order prior low, prior high, threshold low, threshold high. When
  none of the tests holds, the validation converts the input to fractions: it raises
  OverflowError exactly when an int under one of the four keys is too large for its
  hundredth to be a float, and otherwise it returns a dictionary with the keys of the
  input in which the value of an int, bool or float under one of the four keys is that
  value divided by 100 and every other value is the one of the input.
\<close>

theorem validate_user_errors:
  assumes "user_input CONF_PRIOR = Some prior"
    and "user_input CONF_PROBABILITY_THRESHOLD = Some threshold"
  shows "((\<exists>key. validate_user opts user_input = Inl (SchemaFlowError key)) \<longleftrightarrow>
            py_eq prior (PInt 0) \<or> py_eq prior (PInt 100) \<or>
            py_eq threshold (PInt 0) \<or> py_eq threshold (PInt 100)) \<and>
         validate_user opts user_input =
           (if py_eq prior (PInt 0) then Inl (SchemaFlowError ''prior_low_error'')
            else if py_eq prior (PInt 100) then Inl (SchemaFlowError ''prior_high_error'')
            else if py_eq threshold (PInt 0) then Inl (SchemaFlowError ''threshold_low_error'')
            else if py_eq threshold (PInt 100) then Inl (SchemaFlowError ''threshold_high_error'')
            else convert_percentages_to_fractions user_input) \<and>
         (\<not> py_eq prior (PInt 0) \<and> \<not> py_eq prior (PInt 100) \<and>
          \<not> py_eq threshold (PInt 0) \<and> \<not> py_eq threshold (PInt 100) \<longrightarrow>
            (case validate_user opts user_input of
               Inl e \<Rightarrow> e = OverflowError \<and>
                 (\<exists>key \<in> set percentages. \<exists>n.
                    user_input key = Some (PInt n) \<and> overflows (of_int n / 100))
             | Inr r \<Rightarrow> dom r = dom user_input \<and>
                 (\<forall>key v. user_input key = Some v \<longrightarrow>
                    (if is_int_or_float v \<and> key \<in> set percentages
                     then \<exists>w. truediv_100 v = Inr w \<and> r key = Some w
                     else r key = Some v))))"
proof (intro conjI impI)
  show eq: "validate_user opts user_input =
           (if py_eq prior (PInt 0) then Inl (SchemaFlowError ''prior_low_error'')
            else if py_eq prior (PInt 100) then Inl (SchemaFlowError ''prior_high_error'')
            else if py_eq threshold (PInt 0) then Inl (SchemaFlowError ''threshold_low_error'')
            else if py_eq threshold (PInt 100) then Inl (SchemaFlowError ''threshold_high_error'')
            else convert_percentages_to_fractions user_input)"
    using assms by (simp add: validate_user_def)
  show "(\<exists>key. validate_user opts user_input = Inl (SchemaFlowError key)) \<longleftrightarrow>
            py_eq prior (PInt 0) \<or> py_eq prior (PInt 100) \<or>
            py_eq threshold (PInt 0) \<or> py_eq threshold (PInt 100)"
    unfolding eq using convert_percentages_to_fractions_not_flow_error[of user_input] by simp
  assume "\<not> py_eq prior (PInt 0) \<and> \<not> py_eq prior (PInt 100) \<and>
          \<not> py_eq threshold (PInt 0) \<and> \<not> py_eq threshold (PInt 100)"
  then have "validate_user opts user_input = convert_percentages_to_fractions user_input"
    unfolding eq by simp
  then show "case validate_user opts user_input of
               Inl e \<Rightarrow> e = OverflowError \<and>
                 (\<exists>key \<in> set percentages. \<exists>n.
                    user_input key = Some (PInt n) \<and> overflows (of_int n / 100))
             | Inr r \<Rightarrow> dom r = dom user_input \<and>
                 (\<forall>key v. user_input key = Some v \<longrightarrow>
                    (if is_int_or_float v \<and> key \<in> set percentages
                     then \<exists>w. truediv_100 v = Inr w \<and> r key = Some w
                     else r key = Some v))"
    using convert_percentages_to_fractions_outcome[of user_input] by simp
qed

lemma base_options_fractions:
  "convert_percentages_to_fractions
     [CONF_PRIOR \<mapsto> PFloat (Finite 50), CONF_PROBABILITY_THRESHOLD \<mapsto> PFloat (Finite 50)] =
   Inr [CONF_PRIOR \<mapsto> PFloat (Finite (1 / 2)), CONF_PROBABILITY_THRESHOLD \<mapsto> PFloat (Finite (1 / 2))]"
proof -
  let ?d = "[CONF_PRIOR \<mapsto> PFloat (Finite 50), CONF_PROBABILITY_THRESHOLD \<mapsto> PFloat (Finite 50)]"
  have no: "\<not> (\<exists>key \<in> set percentages. \<exists>val. ?d key = Some val \<and> isl (fraction_item key val))"
    by (auto simp: fraction_item_isl_iff split: if_splits)
  have "(\<lambda>key. map_option (\<lambda>val. projr (fraction_item key val)) (?d key)) =
        [CONF_PRIOR \<mapsto> PFloat (Finite (1 / 2)), CONF_PROBABILITY_THRESHOLD \<mapsto> PFloat (Finite (1 / 2))]"
    by (rule ext) (simp add: fraction_item_def percentages_def conf_defs fl_half)
  then show ?thesis using no unfolding convert_percentages_to_fractions_alt by simp
qed

theorem validate_user_errors_witness:
  "validate_user Map.empty
     [CONF_PRIOR \<mapsto> PFloat (Finite 50), CONF_PROBABILITY_THRESHOLD \<mapsto> PFloat (Finite 50)] =
     Inr [CONF_PRIOR \<mapsto> PFloat (Finite (1 / 2)), CONF_PROBABILITY_THRESHOLD \<mapsto> PFloat (Finite (1 / 2))] \<and>
   validate_user Map.empty
     [CONF_PRIOR \<mapsto> PFloat (Finite 50), CONF_PROBABILITY_THRESHOLD \<mapsto> PInt 100] =
     Inl (SchemaFlowError ''threshold_high_error'') \<and>
   validate_user Map.empty
     [CONF_PRIOR \<mapsto> PInt 0, CONF_PROBABILITY_THRESHOLD \<mapsto> PInt 100] =
     Inl (SchemaFlowError ''prior_low_error'')"
proof -
  have d: "CONF_PRIOR \<noteq> CONF_PROBABILITY_THRESHOLD" by (simp add: conf_defs)
  note eq = validate_user_errors[THEN conjunct2, THEN conjunct1]
  show ?thesis
    using eq[of "[CONF_PRIOR \<mapsto> PFloat (Finite 50), CONF_PROBABILITY_THRESHOLD \<mapsto> PFloat (Finite 50)]"
            "PFloat (Finite 50)" "PFloat (Finite 50)" Map.empty]
          eq[of "[CONF_PRIOR \<mapsto> PFloat (Finite 50), CONF_PROBABILITY_THRESHOLD \<mapsto> PInt 100]"
            "PFloat (Finite 50)" "PInt 100" Map.empty]
          eq[of "[CONF_PRIOR \<mapsto> PInt 0, CONF_PROBABILITY_THRESHOLD \<mapsto> PInt 100]"
            "PInt 0" "PInt 100" Map.empty]
          d
    by (simp add: base_options_fractions py_eq_def)
qed

text \<open>
  C2, as the spec states it, fails on a prior that is an int too large for its hundredth
  to be a float: none of the four tests holds, and the validation raises OverflowError
  instead of returning the converted input.
\<close>

theorem validate_user_huge_prior:
  "validate_user Map.empty
     [CONF_PRIOR \<mapsto> PInt (2 ^ 1040), CONF_PROBABILITY_THRESHOLD \<mapsto> PFloat (Finite 50)] =
   Inl OverflowError"
proof -
  let ?d = "[CONF_PRIOR \<mapsto> PInt (2 ^ 1040), CONF_PROBABILITY_THRESHOLD \<mapsto> PFloat (Finite 50)]"
  have d: "CONF_PRIOR \<noteq> CONF_PROBABILITY_THRESHOLD" by (simp add: conf_defs)
  have pos: "(0::rat) < 2 ^ 1040" by simp
  have big: "(100::rat) < 2 ^ 1040"
  proof -
    have "(100::rat) < 2 ^ 7" by simp
    also have "\<dots> \<le> 2 ^ 1040" by (rule power_increasing) simp_all
    finally show ?thesis .
  qed
  have ne: "\<not> py_eq (PInt (2 ^ 1040)) (PInt 0)" "\<not> py_eq (PInt (2 ^ 1040)) (PInt 100)"
    using pos big by (simp_all add: py_eq_def)
  have t: "\<not> py_eq (PFloat (Finite 50)) (PInt 0)" "\<not> py_eq (PFloat (Finite 50)) (PInt 100)"
    by (simp_all add: py_eq_def)
  have "convert_percentages_to_fractions ?d = Inl OverflowError"
    unfolding convert_percentages_to_fractions_Inl_iff
    using hundredth_of_huge_int_overflows d by (auto simp: percentages_def)
  then show ?thesis using ne t d by (simp add: validate_user_def)
qed

section \<open>Validation of an observation\<close>

lemma py_int_error: "py_int v = Inl e \<Longrightarrow> e \<in> {ValueError, TypeError, OverflowError}"
  by (induction v rule: py_int.induct) (auto split: option.splits)

lemma opt_int_error: "opt_int idx = Inl e \<Longrightarrow> e \<in> {ValueError, TypeError, OverflowError}"
  by (cases idx) (auto dest: py_int_error)

lemma list_setitem_error: "list_setitem xs i x = Inl e \<Longrightarrow> e = IndexError"
  by (auto simp: list_setitem_def split: option.splits)

lemma store_observation_error:
  assumes "store_observation opts observation = Inl e"
  shows "e \<in> {ValueError, TypeError, OverflowError, IndexError, AttributeError}"
  using assms
  by (auto simp: store_observation_def Let_def
           split: option.splits if_splits sum.splits optval.splits
           dest!: opt_int_error list_setitem_error)

lemma list_index_less: "list_index xs i = Some j \<Longrightarrow> j < length xs"
  by (auto simp: list_index_def Let_def split: if_splits)

text \<open>The two ways an observation is stored: over the item the index selects, or at the end.\<close>

lemma store_observation_overwrite:
  assumes "dict_get opts CONF_OBSERVATIONS (DictList []) = DictList l"
    and "opts ''index'' = Some idx" "opt_truthy idx" "opt_int idx = Inr i"
    and "list_index l i = Some j"
  shows "store_observation opts observation =
           Inr (opts(CONF_OBSERVATIONS \<mapsto> DictList (l[j := observation])))"
  using assms
  by (simp add: store_observation_def dict_get_def list_setitem_def CONF_OBSERVATIONS_def)

lemma store_observation_append:
  assumes "dict_get opts CONF_OBSERVATIONS (DictList []) = DictList l"
    and "opts ''index'' = None \<or> (\<exists>idx. opts ''index'' = Some idx \<and> \<not> opt_truthy idx)"
  shows "store_observation opts observation =
           Inr (opts(CONF_OBSERVATIONS \<mapsto> DictList (l @ [observation])))"
  using assms
  by (auto simp: store_observation_def dict_get_def CONF_OBSERVATIONS_def)

lemma store_observation_Inr:
  assumes "store_observation opts observation = Inr opts'"
  obtains l where "dict_get opts CONF_OBSERVATIONS (DictList []) = DictList l"
    and "opts' = opts(CONF_OBSERVATIONS \<mapsto> DictList (l @ [observation])) \<or>
         (\<exists>j < length l. opts' = opts(CONF_OBSERVATIONS \<mapsto> DictList (l[j := observation])))"
proof (cases "dict_get opts CONF_OBSERVATIONS (DictList [])")
  case (Scalar v)
  then have False using assms
    by (auto simp: store_observation_def dict_get_def Let_def
             split: option.splits if_splits sum.splits)
  then show ?thesis ..
next
  case (DictList l)
  have "opts' = opts(CONF_OBSERVATIONS \<mapsto> DictList (l @ [observation])) \<or>
         (\<exists>i j. list_index l i = Some j \<and>
            opts' = opts(CONF_OBSERVATIONS \<mapsto> DictList (l[j := observation])))"
    using assms DictList
    by (auto simp: store_observation_def dict_get_def Let_def list_setitem_def
             split: option.splits if_splits sum.splits)
  then have "opts' = opts(CONF_OBSERVATIONS \<mapsto> DictList (l @ [observation])) \<or>
         (\<exists>j < length l. opts' = opts(CONF_OBSERVATIONS \<mapsto> DictList (l[j := observation])))"
    using list_index_less by blast
  with DictList show ?thesis by (rule that)
qed

text \<open>When the validation returns, and what it returns then.\<close>

lemma validate_observation_setup_returns:
  assumes "user_input CONF_P_GIVEN_T = Some p_given_t"
    and "user_input CONF_P_GIVEN_F = Some p_given_f"
    and "\<not> py_eq p_given_t p_given_f"
    and "user_input CONF_PLATFORM = Some platform"
    and "convert_percentages_to_fractions (user_input(''add_another'' := None)) = Inr observation"
    and "store_observation opts observation = Inr opts'"
  shows "validate_observation_setup opts user_input =
           (Inr (if truthy (dict_get user_input ''add_another'' (PBool False))
                 then [''add_another'' \<mapsto> PBool True] else Map.empty),
            opts', user_input(''add_another'' := None))"
  using assms by (simp add: validate_observation_setup_def Let_def)

lemma validate_observation_setup_Inr:
  assumes "validate_observation_setup opts user_input = (Inr r, opts', user_input')"
  obtains p_given_t p_given_f platform observation where
    "user_input CONF_P_GIVEN_T = Some p_given_t"
    "user_input CONF_P_GIVEN_F = Some p_given_f"
    "\<not> py_eq p_given_t p_given_f"
    "user_input CONF_PLATFORM = Some platform"
    "convert_percentages_to_fractions (user_input(''add_another'' := None)) = Inr observation"
    "store_observation opts observation = Inr opts'"
    "r = (if truthy (dict_get user_input ''add_another'' (PBool False))
          then [''add_another'' \<mapsto> PBool True] else Map.empty)"
    "user_input' = user_input(''add_another'' := None)"
  using assms
  by (auto simp: validate_observation_setup_def Let_def
           split: option.splits if_splits sum.splits)

lemma validate_observation_setup_flow_error:
  assumes "fst (validate_observation_setup opts user_input) = Inl (SchemaFlowError key)"
    and "user_input CONF_P_GIVEN_T = Some p_given_t"
    and "user_input CONF_P_GIVEN_F = Some p_given_f"
  shows "py_eq p_given_t p_given_f"
proof (rule ccontr)
  assume ne: "\<not> py_eq p_given_t p_given_f"
  show False
  proof (cases "user_input CONF_PLATFORM")
    case None
    then show False using assms ne by (simp add: validate_observation_setup_def)
  next
    case (Some platform)
    show False
    proof (cases "convert_percentages_to_fractions (user_input(''add_another'' := None))")
      case (Inl e)
      then have "e = OverflowError"
        using convert_percentages_to_fractions_Inl_iff by blast
      then show False using assms ne Some Inl
        by (simp add: validate_observation_setup_def Let_def)
    next
      case (Inr observation)
      show False
      proof (cases "store_observation opts observation")
        case (Inl e)
        from store_observation_error[OF this] show False using assms ne Some Inr Inl
          by (auto simp: validate_observation_setup_def Let_def)
      next
        case (Inr opts')
        then show False using assms ne Some \<open>convert_percentages_to_fractions _ = Inr observation\<close>
          by (simp add: validate_observation_setup_def Let_def)
      qed
    qed
  qed
qed

subsection \<open>The example input\<close>

lemma round_double_quarter: "round_double (1 / 4) = 1 / 4"
  using round_double_eqI[of "- 2" "1 / 4" "2 ^ 52"] by (simp add: power_int_minus)

lemma fl_quarter: "fl (1 / 4) = Finite (1 / 4)"
  using not_overflows_if_small[of "1 / 4"] by (simp add: fl_def round_double_quarter)

lemma example_input_entries:
  "example_input CONF_P_GIVEN_T = Some (PFloat (Finite 50))"
  "example_input CONF_P_GIVEN_F = Some (PFloat (Finite 25))"
  "example_input CONF_PLATFORM = Some (PStr ''state'')"
  "example_input ''add_another'' = Some (PBool True)"
  by (simp_all add: example_input_def conf_defs)

lemma example_input_fractions:
  "convert_percentages_to_fractions (example_input(''add_another'' := None)) = Inr example_observation"
proof -
  let ?d = "example_input(''add_another'' := None)"
  have no: "\<not> (\<exists>key \<in> set percentages. \<exists>val. ?d key = Some val \<and> isl (fraction_item key val))"
    by (auto simp: fraction_item_isl_iff example_input_def split: if_splits)
  have "(\<lambda>key. map_option (\<lambda>val. projr (fraction_item key val)) (?d key)) = example_observation"
    by (rule ext)
       (simp add: fraction_item_def percentages_def conf_defs fl_half fl_quarter
                  example_input_def example_observation_def)
  then show ?thesis using no unfolding convert_percentages_to_fractions_alt by simp
qed

lemma example_input_not_equal: "\<not> py_eq (PFloat (Finite 50)) (PFloat (Finite 25))"
  by (simp add: py_eq_def)

lemma int_of_string_0: "int_of_string ''0'' = Some 0"
  by (simp add: int_of_string_def strip_def is_space_def digits_def digit_of_def max_str_digits_def)

text \<open>
  What \<open>int()\<close> refuses: a separator such as \<open>0x1F\<close> before the digits is no
  whitespace, and a literal of 4301 digits is too long.
\<close>

lemma int_of_string_separator: "int_of_string [CHR 0x1F, CHR ''0''] = None"
  by (simp add: int_of_string_def strip_def is_space_def digits_def digit_of_def max_str_digits_def)

lemma digits_limit: "digits (replicate 4301 (CHR ''0'')) = None"
  by (simp add: digits_def max_str_digits_def)

subsection \<open>Equal probabilities\<close>

text \<open>
  C5. With both probabilities in the input, the validation raises a SchemaFlowError exactly
  when they are equal; its key is \<open>equal_probabilities\<close>, and the options and the input
  are then as they were.
\<close>

theorem equal_probabilities_error:
  assumes "user_input CONF_P_GIVEN_T = Some p_given_t"
    and "user_input CONF_P_GIVEN_F = Some p_given_f"
  shows "((\<exists>key. fst (validate_observation_setup opts user_input) = Inl (SchemaFlowError key)) \<longleftrightarrow>
            py_eq p_given_t p_given_f) \<and>
         (py_eq p_given_t p_given_f \<longrightarrow>
            validate_observation_setup opts user_input =
              (Inl (SchemaFlowError ''equal_probabilities''), opts, user_input))"
proof -
  have "validate_observation_setup opts user_input =
          (Inl (SchemaFlowError ''equal_probabilities''), opts, user_input)"
    if "py_eq p_given_t p_given_f"
    using that assms by (simp add: validate_observation_setup_def)
  moreover have "py_eq p_given_t p_given_f"
    if "fst (validate_observation_setup opts user_input) = Inl (SchemaFlowError key)" for key
    using that assms by (rule validate_observation_setup_flow_error)
  ultimately show ?thesis by fastforce
qed

theorem equal_probabilities_error_witness:
  "validate_observation_setup [''index'' \<mapsto> Scalar (PStr ''0'')]
     [CONF_P_GIVEN_T \<mapsto> PFloat (Finite 50), CONF_P_GIVEN_F \<mapsto> PInt 50] =
   (Inl (SchemaFlowError ''equal_probabilities''), [''index'' \<mapsto> Scalar (PStr ''0'')],
    [CONF_P_GIVEN_T \<mapsto> PFloat (Finite 50), CONF_P_GIVEN_F \<mapsto> PInt 50]) \<and>
   (\<nexists>key. fst (validate_observation_setup Map.empty example_input) = Inl (SchemaFlowError key))"
proof -
  have d: "CONF_P_GIVEN_T \<noteq> CONF_P_GIVEN_F" by (simp add: conf_defs)
  have eq: "py_eq (PFloat (Finite 50)) (PInt 50)" by (simp add: py_eq_def)
  show ?thesis
    using equal_probabilities_error
            [of "[CONF_P_GIVEN_T \<mapsto> PFloat (Finite 50), CONF_P_GIVEN_F \<mapsto> PInt 50]"
                "PFloat (Finite 50)" "PInt 50" "[''index'' \<mapsto> Scalar (PStr ''0'')]"]
          equal_probabilities_error
            [OF example_input_entries(1) example_input_entries(2), of Map.empty]
          d eq example_input_not_equal
    by simp
qed

subsection \<open>The flag \<open>add_another\<close>\<close>

text \<open>
  C7. The next step is the observation selector when \<open>add_another\<close> is set in the input
  and there is none otherwise. The validation of an observation whose probabilities
  differ, whose platform is given, whose percentages can be converted and which can be
  stored returns \<open>{"add_another": True}\<close> when the flag is set and the empty dictionary
  otherwise; the flag is removed from the input, and the observation that is stored is
  the conversion of the input without it.
\<close>

theorem add_another_decides:
  assumes "user_input CONF_P_GIVEN_T = Some p_given_t"
    and "user_input CONF_P_GIVEN_F = Some p_given_f"
    and "\<not> py_eq p_given_t p_given_f"
    and "user_input CONF_PLATFORM = Some platform"
    and "convert_percentages_to_fractions (user_input(''add_another'' := None)) = Inr observation"
    and "store_observation opts observation = Inr opts'"
  shows "choose_observation_step user_input =
           (if truthy (dict_get user_input ''add_another'' (PBool False))
            then Some OBSERVATION_SELECTOR else None) \<and>
         validate_observation_setup opts user_input =
           (Inr (if truthy (dict_get user_input ''add_another'' (PBool False))
                 then [''add_another'' \<mapsto> PBool True] else Map.empty),
            opts', user_input(''add_another'' := None)) \<and>
         observation ''add_another'' = None"
proof -
  have "dom observation = dom (user_input(''add_another'' := None))"
    using assms(5) by (rule convert_percentages_to_fractions_dom)
  then have "observation ''add_another'' = None" by auto
  then show ?thesis
    using validate_observation_setup_returns[OF assms]
    by (simp add: choose_observation_step_def)
qed

lemma example_store_append:
  "store_observation Map.empty example_observation =
     Inr [CONF_OBSERVATIONS \<mapsto> DictList [example_observation]]"
  using store_observation_append[of Map.empty "[]" example_observation]
  by (simp add: dict_get_def)

theorem add_another_decides_witness:
  "choose_observation_step example_input = Some OBSERVATION_SELECTOR \<and>
   choose_observation_step (example_input(''add_another'' \<mapsto> PBool False)) = None \<and>
   validate_observation_setup Map.empty example_input =
     (Inr [''add_another'' \<mapsto> PBool True],
      [CONF_OBSERVATIONS \<mapsto> DictList [example_observation]],
      example_input(''add_another'' := None))"
proof -
  have "choose_observation_step (example_input(''add_another'' \<mapsto> PBool False)) = None"
    by (simp add: choose_observation_step_def dict_get_def)
  then show ?thesis
    using add_another_decides[OF example_input_entries(1) example_input_entries(2)
            example_input_not_equal example_input_entries(3) example_input_fractions
            example_store_append]
    by (simp add: dict_get_def example_input_entries)
qed

subsection \<open>Stored observations\<close>

text \<open>
  C10. When the validation returns, the observation it has stored, at the end of the list
  or over an item of it, has no key \<open>add_another\<close>; if no observation of the list had
  the key before, none has it afterwards.
\<close>

theorem stored_observation_lacks_add_another:
  assumes "validate_observation_setup opts user_input = (Inr r, opts', user_input')"
  shows "\<exists>l observation.
           dict_get opts CONF_OBSERVATIONS (DictList []) = DictList l \<and>
           convert_percentages_to_fractions (user_input(''add_another'' := None)) = Inr observation \<and>
           observation ''add_another'' = None \<and>
           (opts' = opts(CONF_OBSERVATIONS \<mapsto> DictList (l @ [observation])) \<or>
            (\<exists>j < length l. opts' = opts(CONF_OBSERVATIONS \<mapsto> DictList (l[j := observation])))) \<and>
           ((\<forall>old \<in> set l. old ''add_another'' = None) \<longrightarrow>
            (\<exists>l'. opts' CONF_OBSERVATIONS = Some (DictList l') \<and>
                  (\<forall>new \<in> set l'. new ''add_another'' = None)))"
proof -
  from assms obtain observation where
    conv: "convert_percentages_to_fractions (user_input(''add_another'' := None)) = Inr observation"
    and store: "store_observation opts observation = Inr opts'"
    by (rule validate_observation_setup_Inr)
  have "dom observation = dom (user_input(''add_another'' := None))"
    using conv by (rule convert_percentages_to_fractions_dom)
  then have none: "observation ''add_another'' = None" by auto
  from store obtain l where l: "dict_get opts CONF_OBSERVATIONS (DictList []) = DictList l"
    and opts': "opts' = opts(CONF_OBSERVATIONS \<mapsto> DictList (l @ [observation])) \<or>
         (\<exists>j < length l. opts' = opts(CONF_OBSERVATIONS \<mapsto> DictList (l[j := observation])))"
    by (rule store_observation_Inr)
  have "\<exists>l'. opts' CONF_OBSERVATIONS = Some (DictList l') \<and>
                  (\<forall>new \<in> set l'. new ''add_another'' = None)"
    if old: "\<forall>old \<in> set l. old ''add_another'' = None"
    using opts'
  proof
    assume "opts' = opts(CONF_OBSERVATIONS \<mapsto> DictList (l @ [observation]))"
    then show ?thesis using old none by auto
  next
    assume "\<exists>j < length l. opts' = opts(CONF_OBSERVATIONS \<mapsto> DictList (l[j := observation]))"
    then obtain j where "opts' = opts(CONF_OBSERVATIONS \<mapsto> DictList (l[j := observation]))"
      by blast
    moreover have "\<forall>new \<in> set (l[j := observation]). new ''add_another'' = None"
      using old none set_update_subset_insert[of l j observation] by auto
    ultimately show ?thesis by simp
  qed
  with l conv none opts' show ?thesis by blast
qed

theorem stored_observation_lacks_add_another_witness:
  "example_input ''add_another'' = Some (PBool True) \<and>
   fst (snd (validate_observation_setup Map.empty example_input)) =
     [CONF_OBSERVATIONS \<mapsto> DictList [example_observation]] \<and>
   example_observation ''add_another'' = None"
proof -
  have v: "validate_observation_setup Map.empty example_input =
     (Inr [''add_another'' \<mapsto> PBool True],
      [CONF_OBSERVATIONS \<mapsto> DictList [example_observation]],
      example_input(''add_another'' := None))"
    using validate_observation_setup_returns[OF example_input_entries(1) example_input_entries(2)
            example_input_not_equal example_input_entries(3) example_input_fractions
            example_store_append]
    by (simp add: dict_get_def example_input_entries)
  from stored_observation_lacks_add_another[OF v]
  obtain observation where
    "convert_percentages_to_fractions (example_input(''add_another'' := None)) = Inr observation"
    "observation ''add_another'' = None"
    by blast
  then have "example_observation ''add_another'' = None"
    by (simp add: example_input_fractions)
  then show ?thesis using v example_input_entries(4) by simp
qed

subsection \<open>Append or overwrite\<close>

text \<open>
  The input is a valid observation: both probabilities are given and differ, the platform
  is given, and the percentages can be converted. The options hold no observations yet or
  a list of them. If the options hold an index that is true as a condition (a non-empty
  string, a number other than zero) and that \<open>int()\<close> turns into a position of the
  list, the item at that position is replaced by the converted input and nothing else in
  the list changes. If the options hold no index, the converted input is added at the end
  of the list.
\<close>

lemma observation_overwritten_or_appended:
  assumes "user_input CONF_P_GIVEN_T = Some p_given_t"
    and "user_input CONF_P_GIVEN_F = Some p_given_f"
    and "\<not> py_eq p_given_t p_given_f"
    and "user_input CONF_PLATFORM = Some platform"
    and "convert_percentages_to_fractions (user_input(''add_another'' := None)) = Inr observation"
    and "dict_get opts CONF_OBSERVATIONS (DictList []) = DictList l"
  shows "(\<forall>idx i j. opts ''index'' = Some idx \<and> opt_truthy idx \<and> opt_int idx = Inr i \<and>
                     list_index l i = Some j \<longrightarrow>
            (\<exists>r. validate_observation_setup opts user_input =
                   (Inr r, opts(CONF_OBSERVATIONS \<mapsto> DictList (l[j := observation])),
                    user_input(''add_another'' := None)))) \<and>
         (opts ''index'' = None \<longrightarrow>
            (\<exists>r. validate_observation_setup opts user_input =
                   (Inr r, opts(CONF_OBSERVATIONS \<mapsto> DictList (l @ [observation])),
                    user_input(''add_another'' := None))))"
proof (intro conjI allI impI)
  fix idx i j
  assume "opts ''index'' = Some idx \<and> opt_truthy idx \<and> opt_int idx = Inr i \<and> list_index l i = Some j"
  then have "store_observation opts observation =
               Inr (opts(CONF_OBSERVATIONS \<mapsto> DictList (l[j := observation])))"
    using store_observation_overwrite[OF assms(6)] by blast
  from validate_observation_setup_returns[OF assms(1-5) this]
  show "\<exists>r. validate_observation_setup opts user_input =
                   (Inr r, opts(CONF_OBSERVATIONS \<mapsto> DictList (l[j := observation])),
                    user_input(''add_another'' := None))"
    by blast
next
  assume "opts ''index'' = None"
  then have "store_observation opts observation =
               Inr (opts(CONF_OBSERVATIONS \<mapsto> DictList (l @ [observation])))"
    using store_observation_append[OF assms(6)] by blast
  from validate_observation_setup_returns[OF assms(1-5) this]
  show "\<exists>r. validate_observation_setup opts user_input =
                   (Inr r, opts(CONF_OBSERVATIONS \<mapsto> DictList (l @ [observation])),
                    user_input(''add_another'' := None))"
    by blast
qed


lemma observation_appended_without_index:
  "fst (snd (validate_observation_setup
       [CONF_OBSERVATIONS \<mapsto> DictList [older_observation]]
       example_input)) CONF_OBSERVATIONS = Some (DictList [older_observation, example_observation])"
proof -
  let ?add = "[CONF_OBSERVATIONS \<mapsto> DictList [older_observation]]"
  have a: "dict_get ?add CONF_OBSERVATIONS (DictList []) = DictList [older_observation]"
    by (simp add: dict_get_def)
  have n: "?add ''index'' = None" by (simp add: CONF_OBSERVATIONS_def)
  from observation_overwritten_or_appended[OF example_input_entries(1) example_input_entries(2)
         example_input_not_equal example_input_entries(3) example_input_fractions a] n
  have "\<exists>r. validate_observation_setup ?add example_input =
          (Inr r, ?add(CONF_OBSERVATIONS \<mapsto> DictList ([older_observation] @ [example_observation])),
           example_input(''add_another'' := None))"
    by blast
  then show ?thesis by auto
qed



section \<open>The schema of the edit step\<close>

lemma py_eq_PStr: "py_eq v (PStr s) \<longleftrightarrow> v = PStr s"
  by (cases v) (simp_all add: py_eq_def)

lemma selected_platform_Inr_iff:
  "selected_platform observations i = Inr platform \<longleftrightarrow>
     (\<exists>l j. observations = DictList l \<and> list_index l i = Some j \<and>
            (l ! j) CONF_PLATFORM = Some platform)"
proof (cases observations)
  case (Scalar v)
  then show ?thesis
    by (cases v) (auto simp: list_getitem_def split: option.splits sum.splits)
next
  case (DictList l)
  then show ?thesis
    by (auto simp: list_getitem_def split: option.splits sum.splits)
qed

text \<open>
  C9. The function returns, a schema or None, exactly when the options hold the
  observations as a list and an index that \<open>int()\<close> turns into a position of that list
  at which the observation has a platform; in every other case it raises. What it
  returns is the schema of the platform for the three observation types and None for
  any other platform.
\<close>

theorem edit_observation_schema_partial:
  "get_edit_observation_schema opts = Inr schema \<longleftrightarrow>
     (\<exists>l idx i j platform.
        opts ''observations'' = Some (DictList l) \<and>
        opts ''index'' = Some idx \<and> opt_int idx = Inr i \<and>
        list_index l i = Some j \<and> (l ! j) CONF_PLATFORM = Some platform \<and>
        schema = (if platform = PStr ''state'' then Some STATE_SUBSCHEMA
                  else if platform = PStr ''numeric_state'' then Some NUMERIC_STATE_SUBSCHEMA
                  else if platform = PStr ''template'' then Some TEMPLATE_SUBSCHEMA
                  else None))"
proof
  assume "get_edit_observation_schema opts = Inr schema"
  then obtain observations idx i platform where
    "opts ''observations'' = Some observations" "opts ''index'' = Some idx"
    "opt_int idx = Inr i" "selected_platform observations i = Inr platform"
    "schema = (if platform = PStr ''state'' then Some STATE_SUBSCHEMA
                  else if platform = PStr ''numeric_state'' then Some NUMERIC_STATE_SUBSCHEMA
                  else if platform = PStr ''template'' then Some TEMPLATE_SUBSCHEMA
                  else None)"
    by (auto simp: get_edit_observation_schema_def py_eq_PStr CONF_STATE_def CONF_TEMPLATE_def
             split: option.splits sum.splits if_splits)
  then show "\<exists>l idx i j platform.
        opts ''observations'' = Some (DictList l) \<and>
        opts ''index'' = Some idx \<and> opt_int idx = Inr i \<and>
        list_index l i = Some j \<and> (l ! j) CONF_PLATFORM = Some platform \<and>
        schema = (if platform = PStr ''state'' then Some STATE_SUBSCHEMA
                  else if platform = PStr ''numeric_state'' then Some NUMERIC_STATE_SUBSCHEMA
                  else if platform = PStr ''template'' then Some TEMPLATE_SUBSCHEMA
                  else None)"
    unfolding selected_platform_Inr_iff by blast
next
  assume "\<exists>l idx i j platform.
        opts ''observations'' = Some (DictList l) \<and>
        opts ''index'' = Some idx \<and> opt_int idx = Inr i \<and>
        list_index l i = Some j \<and> (l ! j) CONF_PLATFORM = Some platform \<and>
        schema = (if platform = PStr ''state'' then Some STATE_SUBSCHEMA
                  else if platform = PStr ''numeric_state'' then Some NUMERIC_STATE_SUBSCHEMA
                  else if platform = PStr ''template'' then Some TEMPLATE_SUBSCHEMA
                  else None)"
  then obtain l idx i j platform where h:
    "opts ''observations'' = Some (DictList l)" "opts ''index'' = Some idx" "opt_int idx = Inr i"
    "list_index l i = Some j" "(l ! j) CONF_PLATFORM = Some platform"
    "schema = (if platform = PStr ''state'' then Some STATE_SUBSCHEMA
                  else if platform = PStr ''numeric_state'' then Some NUMERIC_STATE_SUBSCHEMA
                  else if platform = PStr ''template'' then Some TEMPLATE_SUBSCHEMA
                  else None)"
    by blast
  have "selected_platform (DictList l) i = Inr platform"
    unfolding selected_platform_Inr_iff using h(4,5) by blast
  then show "get_edit_observation_schema opts = Inr schema"
    using h(1,2,3,6)
    by (simp add: get_edit_observation_schema_def py_eq_PStr CONF_STATE_def CONF_TEMPLATE_def)
qed

theorem edit_observation_schema_partial_witness:
  "get_edit_observation_schema
     [''observations'' \<mapsto> DictList [example_observation, older_observation],
      ''index'' \<mapsto> Scalar (PStr ''0'')] = Inr (Some STATE_SUBSCHEMA) \<and>
   get_edit_observation_schema
     [''observations'' \<mapsto> DictList [[CONF_PLATFORM \<mapsto> PStr ''other'']],
      ''index'' \<mapsto> Scalar (PStr ''0'')] = Inr None \<and>
   (\<nexists>schema. get_edit_observation_schema
      [''observations'' \<mapsto> DictList [example_observation, older_observation]] = Inr schema) \<and>
   (\<nexists>schema. get_edit_observation_schema
      [''observations'' \<mapsto> DictList [example_observation, older_observation],
       ''index'' \<mapsto> Scalar (PStr [CHR 0x1F, CHR ''0''])] = Inr schema)"
proof -
  have 1: "\<exists>l idx i j platform.
        [''observations'' \<mapsto> DictList [example_observation, older_observation],
         ''index'' \<mapsto> Scalar (PStr ''0'')] ''observations'' = Some (DictList l) \<and>
        [''observations'' \<mapsto> DictList [example_observation, older_observation],
         ''index'' \<mapsto> Scalar (PStr ''0'')] ''index'' = Some idx \<and> opt_int idx = Inr i \<and>
        list_index l i = Some j \<and> (l ! j) CONF_PLATFORM = Some platform \<and>
        Some STATE_SUBSCHEMA = (if platform = PStr ''state'' then Some STATE_SUBSCHEMA
                  else if platform = PStr ''numeric_state'' then Some NUMERIC_STATE_SUBSCHEMA
                  else if platform = PStr ''template'' then Some TEMPLATE_SUBSCHEMA
                  else None)"
    by (intro exI[of _ "[example_observation, older_observation]"] exI[of _ "Scalar (PStr ''0'')"]
              exI[of _ 0] exI[of _ "PStr ''state''"])
       (simp add: int_of_string_0 list_index_def example_observation_def conf_defs)
  have 2: "\<exists>l idx i j platform.
        [''observations'' \<mapsto> DictList [[CONF_PLATFORM \<mapsto> PStr ''other'']],
         ''index'' \<mapsto> Scalar (PStr ''0'')] ''observations'' = Some (DictList l) \<and>
        [''observations'' \<mapsto> DictList [[CONF_PLATFORM \<mapsto> PStr ''other'']],
         ''index'' \<mapsto> Scalar (PStr ''0'')] ''index'' = Some idx \<and> opt_int idx = Inr i \<and>
        list_index l i = Some j \<and> (l ! j) CONF_PLATFORM = Some platform \<and>
        None = (if platform = PStr ''state'' then Some STATE_SUBSCHEMA
                  else if platform = PStr ''numeric_state'' then Some NUMERIC_STATE_SUBSCHEMA
                  else if platform = PStr ''template'' then Some TEMPLATE_SUBSCHEMA
                  else None)"
    by (intro exI[of _ "[[CONF_PLATFORM \<mapsto> PStr ''other'']]"] exI[of _ "Scalar (PStr ''0'')"]
              exI[of _ 0] exI[of _ "PStr ''other''"])
       (simp add: int_of_string_0 list_index_def)
  show ?thesis
    using edit_observation_schema_partial
            [of "[''observations'' \<mapsto> DictList [example_observation, older_observation],
                  ''index'' \<mapsto> Scalar (PStr ''0'')]" "Some STATE_SUBSCHEMA"]
          edit_observation_schema_partial
            [of "[''observations'' \<mapsto> DictList [[CONF_PLATFORM \<mapsto> PStr ''other'']],
                  ''index'' \<mapsto> Scalar (PStr ''0'')]" None]
          edit_observation_schema_partial
            [of "[''observations'' \<mapsto> DictList [example_observation, older_observation]]"]
          edit_observation_schema_partial
            [of "[''observations'' \<mapsto> DictList [example_observation, older_observation],
                  ''index'' \<mapsto> Scalar (PStr [CHR 0x1F, CHR ''0''])]"]
          1 2
    by (simp add: int_of_string_separator)
qed

section \<open>The preview command on invalid input\<close>

lemma expected_errors_Cons:
  assumes "key \<notin> fst ` set rest"
  shows "expected_errors ((key, sv) # rest) user_input =
           (\<lambda>k. if k = key then expected_errors [(key, sv)] user_input key
                else expected_errors rest user_input k)"
proof (rule ext)
  fix k
  have "map_of rest key = None" using assms by (simp add: map_of_eq_None_iff)
  then show "expected_errors ((key, sv) # rest) user_input k =
          (if k = key then expected_errors [(key, sv)] user_input key
           else expected_errors rest user_input k)"
    by (auto simp: expected_errors_def)
qed

lemma expected_errors_not_in_schema:
  assumes "key \<notin> fst ` set schema"
  shows "expected_errors schema user_input key = None"
proof -
  have "map_of schema key = None" using assms by (simp add: map_of_eq_None_iff)
  then show ?thesis by (simp add: expected_errors_def)
qed

text \<open>
  The loop fills the dictionary with the expected errors, whatever it held before, when
  the keys of the schema are distinct (they are the keys of a dictionary) and every
  entry that is called is a validator.
\<close>

lemma validate_loop_expected:
  assumes "distinct (map fst schema)"
    and "\<And>key sv v. (key, sv) \<in> set schema \<Longrightarrow> key \<noteq> CONF_PLATFORM \<Longrightarrow>
           user_input key = Some v \<Longrightarrow> \<exists>f. sv = Validator f"
  shows "validate_loop schema user_input errors =
           Inr (\<lambda>key. case expected_errors schema user_input key of
                         Some m \<Rightarrow> Some m | None \<Rightarrow> errors key)"
  using assms
proof (induction schema arbitrary: errors)
  case Nil
  then show ?case by (simp add: expected_errors_def)
next
  case (Cons item rest)
  obtain key sv where item: "item = (key, sv)" by (cases item)
  have fresh: "key \<notin> fst ` set rest" and d: "distinct (map fst rest)"
    using Cons.prems(1) item by auto
  have IH: "validate_loop rest user_input errs =
           Inr (\<lambda>k. case expected_errors rest user_input k of
                         Some m \<Rightarrow> Some m | None \<Rightarrow> errs k)" for errs
    using Cons.IH[OF d] Cons.prems(2) by (meson list.set_intros(2))
  note ee = expected_errors_Cons[OF fresh, of sv user_input]
  have none: "expected_errors rest user_input key = None"
    using fresh by (rule expected_errors_not_in_schema)
  have skip: "validate_loop (item # rest) user_input errors =
           Inr (\<lambda>k. case expected_errors (item # rest) user_input k of
                         Some m \<Rightarrow> Some m | None \<Rightarrow> errors k)"
    if head: "expected_errors [(key, sv)] user_input key = None"
      and loop: "validate_loop (item # rest) user_input errors = validate_loop rest user_input errors"
  proof -
    have "(\<lambda>k. case expected_errors (item # rest) user_input k of
                         Some m \<Rightarrow> Some m | None \<Rightarrow> errors k) =
          (\<lambda>k. case expected_errors rest user_input k of
                         Some m \<Rightarrow> Some m | None \<Rightarrow> errors k)"
      unfolding item ee using head none by (auto intro!: ext)
    then show ?thesis using loop by (simp add: IH)
  qed
  show ?case
  proof (cases "user_input key")
    case None
    have "expected_errors [(key, sv)] user_input key = None"
      using None by (simp add: expected_errors_def split: schema_value.splits)
    moreover have "validate_loop (item # rest) user_input errors = validate_loop rest user_input errors"
      using None by (simp add: item)
    ultimately show ?thesis by (rule skip)
  next
    case (Some v)
    show ?thesis
    proof (cases "key = CONF_PLATFORM")
      case True
      have "expected_errors [(key, sv)] user_input key = None"
        using True by (simp add: expected_errors_def split: schema_value.splits)
      moreover have "validate_loop (item # rest) user_input errors = validate_loop rest user_input errors"
        using Some True by (simp add: item)
      ultimately show ?thesis by (rule skip)
    next
      case False
      then obtain f where f: "sv = Validator f"
        using Cons.prems(2)[of key sv v] Some item by auto
      show ?thesis
      proof (cases "f v")
        case Accepted
        have "expected_errors [(key, sv)] user_input key = None"
          using Some False f Accepted by (simp add: expected_errors_def)
        moreover have "validate_loop (item # rest) user_input errors = validate_loop rest user_input errors"
          using Some False f Accepted by (simp add: item)
        ultimately show ?thesis by (rule skip)
      next
        case (Invalid m)
        have head: "expected_errors [(key, sv)] user_input key = Some m"
          using Some False f Invalid by (simp add: expected_errors_def)
        have loop: "validate_loop (item # rest) user_input errors =
                      validate_loop rest user_input (errors(key \<mapsto> m))"
          using Some False f Invalid by (simp add: item)
        have "(\<lambda>k. case expected_errors (item # rest) user_input k of
                         Some m \<Rightarrow> Some m | None \<Rightarrow> errors k) =
              (\<lambda>k. case expected_errors rest user_input k of
                         Some m' \<Rightarrow> Some m' | None \<Rightarrow> (errors(key \<mapsto> m)) k)"
          unfolding item ee using head none by (auto intro!: ext split: option.splits)
        then show ?thesis using loop by (simp add: IH)
      qed
    qed
  qed
qed

lemma template_step_schema_validated:
  "validate (template_step_schema sel) user_input =
     Inr (expected_errors (template_step_schema sel) user_input)"
proof -
  have "validate_loop (template_step_schema sel) user_input Map.empty =
           Inr (\<lambda>key. case expected_errors (template_step_schema sel) user_input key of
                         Some m \<Rightarrow> Some m | None \<Rightarrow> Map.empty key)"
    by (rule validate_loop_expected) (auto simp: template_step_schema_def conf_defs)
  moreover have "(\<lambda>key. case expected_errors (template_step_schema sel) user_input key of
                         Some m \<Rightarrow> Some m | None \<Rightarrow> Map.empty key) =
                 expected_errors (template_step_schema sel) user_input"
    by (rule ext) (simp split: option.splits)
  ultimately show ?thesis by (simp add: validate_def)
qed

text \<open>
  C6. The inner validation returns the expected errors: an entry for each key of the
  schema that is present in the input, is not the platform key and whose validator
  rejects the value. When the flow is found and there is such an error, the command sends
  one message, the result without success that carries the code \<open>invalid_user_input\<close>
  and the errors, and returns: it creates no preview entity and the subscriptions of the
  connection are as they were.
\<close>

theorem preview_rejects_invalid_input:
  "validate (template_step_schema sel) (msg_user_input msg) =
     Inr (expected_errors (template_step_schema sel) (msg_user_input msg)) \<and>
   (lookup_flow h msg = Inr entry \<and>
    expected_errors (template_step_schema sel) (msg_user_input msg) \<noteq> Map.empty \<longrightarrow>
      ws_start_preview h sel conn msg =
        (Inr (),
         conn\<lparr>sent := sent conn @
                 [ErrorResult (msg_id msg) ''invalid_user_input''
                    (expected_errors (template_step_schema sel) (msg_user_input msg))]\<rparr>,
         []) \<and>
      subscriptions (fst (snd (ws_start_preview h sel conn msg))) = subscriptions conn)"
  by (simp add: ws_start_preview_def template_step_schema_validated)

lemma example_message_errors:
  "expected_errors (template_step_schema example_selectors) (msg_user_input example_message) =
     [CONF_P_GIVEN_T \<mapsto> ''expected float'']"
  by (rule ext)
     (simp add: expected_errors_def template_step_schema_def example_selectors_def
                example_message_def conf_defs)

theorem preview_rejects_invalid_input_witness:
  "ws_start_preview example_hass example_selectors \<lparr>sent = [], subscriptions = Map.empty\<rparr>
     example_message =
   (Inr (),
    \<lparr>sent = [ErrorResult 7 ''invalid_user_input'' [CONF_P_GIVEN_T \<mapsto> ''expected float'']],
     subscriptions = Map.empty\<rparr>,
    [])"
proof -
  have l: "lookup_flow example_hass example_message = Inr None"
    by (simp add: lookup_flow_def example_hass_def example_message_def)
  have i: "msg_id example_message = 7" by (simp add: example_message_def)
  show ?thesis
    using preview_rejects_invalid_input
            [of example_selectors example_message example_hass None
                "\<lparr>sent = [], subscriptions = Map.empty\<rparr>"]
    by (simp add: l i example_message_errors)
qed

section \<open>The module cannot be imported\<close>

lemma exec_stmts_append:
  "exec_stmts env (xs @ ys) =
     (case exec_stmts env xs of Inl e \<Rightarrow> Inl e | Inr env' \<Rightarrow> exec_stmts env' ys)"
  by (induction xs arbitrary: env) (simp_all split: option.splits)

lemma exec_imports:
  "exec_stmts builtins module_imports = Inr (concat (rev (map binds module_imports)) @ builtins)"
  by (simp add: module_imports_def)

lemma exec_schemas:
  "exec_stmts (concat (rev (map binds module_imports)) @ builtins) module_schemas =
     Inr (concat (rev (map binds (module_imports @ module_schemas))) @ builtins)"
  by (simp add: module_imports_def module_schemas_def builtins_def)

lemma exec_functions:
  "exec_stmts (concat (rev (map binds (module_imports @ module_schemas))) @ builtins) module_functions =
     Inr (concat (rev (map binds (module_imports @ module_schemas @ module_functions))) @ builtins)"
  by (simp add: module_functions_def)

lemma exec_CONFIG_FLOW:
  "exec_stmts (concat (rev (map binds (module_imports @ module_schemas @ module_functions))) @ builtins)
     [CONFIG_FLOW_stmt] =
   Inr (concat (rev (map binds module_before_OPTIONS_FLOW)) @ builtins)"
  by (simp add: module_before_OPTIONS_FLOW_def CONFIG_FLOW_stmt_def module_imports_def
        module_schemas_def module_functions_def builtins_def)

lemma exec_before_OPTIONS_FLOW:
  "exec_stmts builtins module_before_OPTIONS_FLOW =
     Inr (concat (rev (map binds module_before_OPTIONS_FLOW)) @ builtins)"
  unfolding module_before_OPTIONS_FLOW_def exec_stmts_append exec_imports
  by (simp only: sum.case exec_schemas exec_functions
        exec_CONFIG_FLOW[unfolded module_before_OPTIONS_FLOW_def])

lemma exec_OPTIONS_FLOW:
  "exec_stmts (concat (rev (map binds module_before_OPTIONS_FLOW)) @ builtins)
     (OPTIONS_FLOW_stmt # rest) = Inl (NameError ''_validate_remove_observation'')"
  by (simp add: module_before_OPTIONS_FLOW_def OPTIONS_FLOW_stmt_def CONFIG_FLOW_stmt_def
        module_imports_def module_schemas_def module_functions_def builtins_def)

lemma name_never_bound:
  "''_validate_remove_observation'' \<notin> set builtins \<union> set (concat (map binds config_flow_module))"
  by (simp add: config_flow_module_def module_before_OPTIONS_FLOW_def OPTIONS_FLOW_stmt_def
        CONFIG_FLOW_stmt_def module_imports_def module_schemas_def module_functions_def
        module_rest_def builtins_def)

text \<open>
  C8. No statement of the module binds the name \<open>_validate_remove_observation\<close>, and
  it is no builtin. The statements before the definition of \<open>OPTIONS_FLOW\<close> run; that
  definition reads the name and raises NameError, so the import of the module fails
  there, before the flow handler and the preview command are defined.
\<close>

theorem options_flow_raises_name_error:
  "''_validate_remove_observation'' \<notin> set builtins \<union> set (concat (map binds config_flow_module)) \<and>
   exec_stmts builtins module_before_OPTIONS_FLOW =
     Inr (concat (rev (map binds module_before_OPTIONS_FLOW)) @ builtins) \<and>
   exec_stmts builtins (module_before_OPTIONS_FLOW @ [OPTIONS_FLOW_stmt]) =
     Inl (NameError ''_validate_remove_observation'') \<and>
   exec_stmts builtins config_flow_module = Inl (NameError ''_validate_remove_observation'')"
  using name_never_bound exec_before_OPTIONS_FLOW exec_OPTIONS_FLOW[of "[]"] exec_OPTIONS_FLOW[of module_rest]
  by (simp add: config_flow_module_def exec_stmts_append del: exec_stmts.simps)

section \<open>The round trip of the unit conversion\<close>

text \<open>Dividing by 100 and multiplying by 100 again rounds twice.\<close>

lemma round_trip_bound:
  assumes "x = 0 \<or> (2 powi (- 1000) \<le> \<bar>x\<bar> \<and> \<bar>x\<bar> \<le> 2 ^ 1000)"
  shows "\<not> overflows (x / 100)"
    and "\<not> overflows (round_double (x / 100) * 100)"
    and "\<bar>round_double (round_double (x / 100) * 100) - x\<bar> \<le> \<bar>x\<bar> * 2 powi (- 51)"
proof -
  have "\<not> overflows (x / 100) \<and> \<not> overflows (round_double (x / 100) * 100) \<and>
        \<bar>round_double (round_double (x / 100) * 100) - x\<bar> \<le> \<bar>x\<bar> * 2 powi (- 51)"
  proof (cases "x = 0")
    case True
    then show ?thesis using not_overflows_if_small[of 0] by simp
  next
    case False
    then have lo: "2 powi (- 1000) \<le> \<bar>x\<bar>" and hi: "\<bar>x\<bar> \<le> 2 ^ 1000" using assms by auto
    define a where "a = x / 100"
    define y where "y = round_double a"
    define b where "b = y * 100"
    have ax: "\<bar>a\<bar> * 100 = \<bar>x\<bar>" by (simp add: a_def)
    have p22: "(2::rat) powi (- 1022) * 100 \<le> 2 powi (- 1000)"
    proof -
      have "(2::rat) powi (- 1000) = 2 powi (- 1022) * 2 powi 22"
        using powi2_add[of "- 1022" 22] by simp
      moreover have "(2::rat) powi (- 1022) * 100 \<le> 2 powi (- 1022) * 2 powi 22"
        by (rule mult_left_mono) simp_all
      ultimately show ?thesis by simp
    qed
    have a_lo: "2 powi (- 1022) \<le> \<bar>a\<bar>"
    proof -
      have "(2::rat) powi (- 1022) * 100 \<le> \<bar>a\<bar> * 100" using p22 lo ax by linarith
      then show ?thesis by simp
    qed
    have a_hi: "\<bar>a\<bar> \<le> 2 ^ 1023"
    proof -
      have "\<bar>a\<bar> \<le> \<bar>a\<bar> * 100" by simp
      also have "\<dots> \<le> 2 ^ 1000" using hi ax by simp
      also have "\<dots> \<le> (2::rat) ^ 1023" by (rule power_increasing) simp_all
      finally show ?thesis .
    qed
    have small: "(2::rat) powi (- 53) \<le> 1 / 2" by (simp add: power_int_minus)
    have e53: "(0::rat) \<le> 2 powi (- 53)" by simp
    have ya: "\<bar>y - a\<bar> \<le> \<bar>a\<bar> * 2 powi (- 53)"
      unfolding y_def using a_lo by (rule round_double_error)
    have "\<bar>a\<bar> * 2 powi (- 53) \<le> \<bar>a\<bar> * (1 / 2)"
      using small by (rule mult_left_mono) simp
    then have ya2: "\<bar>y - a\<bar> \<le> \<bar>a\<bar> / 2" using ya by simp
    have bx: "\<bar>b - x\<bar> \<le> \<bar>x\<bar> * 2 powi (- 53)"
    proof -
      have "b - x = (y - a) * 100" by (simp add: b_def a_def algebra_simps)
      then have "\<bar>b - x\<bar> = \<bar>(y - a) * 100\<bar>" by (rule arg_cong)
      also have "\<dots> = \<bar>y - a\<bar> * 100" by (simp only: abs_mult abs_numeral)
      also have "\<dots> \<le> (\<bar>a\<bar> * 2 powi (- 53)) * 100" using ya by simp
      also have "\<dots> = \<bar>x\<bar> * 2 powi (- 53)" using ax by (simp add: algebra_simps)
      finally show ?thesis .
    qed
    have "\<bar>x\<bar> * 2 powi (- 53) \<le> \<bar>x\<bar> * (1 / 2)"
      using small by (rule mult_left_mono) simp
    then have bx2: "\<bar>b - x\<bar> \<le> \<bar>x\<bar> / 2" using bx by simp
    have b_hi2: "\<bar>b\<bar> \<le> 2 * \<bar>x\<bar>" using bx2 by linarith
    have b_lo2: "\<bar>x\<bar> / 2 \<le> \<bar>b\<bar>" using bx2 by linarith
    have b_lo: "2 powi (- 1022) \<le> \<bar>b\<bar>"
    proof -
      have "(2::rat) powi (- 1022) * 100 \<le> \<bar>x\<bar>" using p22 lo by simp
      then have "(2::rat) powi (- 1022) \<le> \<bar>x\<bar> / 2"
        using zero_le_power_int[of "2::rat" "- 1022"] by linarith
      then show ?thesis using b_lo2 by simp
    qed
    have b_hi: "\<bar>b\<bar> \<le> 2 ^ 1023"
    proof -
      have "\<bar>b\<bar> \<le> 2 * 2 ^ 1000" using b_hi2 hi by simp
      also have "\<dots> = (2::rat) ^ 1001" by simp
      also have "\<dots> \<le> (2::rat) ^ 1023" by (rule power_increasing) simp_all
      finally show ?thesis .
    qed
    have rb: "\<bar>round_double b - b\<bar> \<le> \<bar>b\<bar> * 2 powi (- 53)"
      using b_lo by (rule round_double_error)
    have "\<bar>b\<bar> * 2 powi (- 53) \<le> (2 * \<bar>x\<bar>) * 2 powi (- 53)"
      using b_hi2 e53 by (rule mult_right_mono)
    then have rb2: "\<bar>round_double b - b\<bar> \<le> 2 * \<bar>x\<bar> * 2 powi (- 53)" using rb by simp
    have p51: "(2::rat) powi (- 51) = 4 * 2 powi (- 53)"
      using powi2_add[of 2 "- 53"] by simp
    have "\<bar>round_double b - x\<bar> \<le> \<bar>round_double b - b\<bar> + \<bar>b - x\<bar>" by simp
    also have "\<dots> \<le> 2 * \<bar>x\<bar> * 2 powi (- 53) + \<bar>x\<bar> * 2 powi (- 53)"
      using rb2 bx by simp
    also have "\<dots> \<le> \<bar>x\<bar> * 2 powi (- 51)"
    proof -
      have "0 \<le> \<bar>x\<bar> * 2 powi (- 53)" by simp
      then show ?thesis unfolding p51 by (simp add: algebra_simps)
    qed
    finally have "\<bar>round_double b - x\<bar> \<le> \<bar>x\<bar> * 2 powi (- 51)" .
    moreover have "\<not> overflows a" using a_hi by (rule not_overflows_if_small)
    moreover have "\<not> overflows b" using b_hi by (rule not_overflows_if_small)
    ultimately show ?thesis by (simp add: a_def y_def b_def)
  qed
  then show "\<not> overflows (x / 100)"
    and "\<not> overflows (round_double (x / 100) * 100)"
    and "\<bar>round_double (round_double (x / 100) * 100) - x\<bar> \<le> \<bar>x\<bar> * 2 powi (- 51)"
    by simp_all
qed

lemma truediv_100_in_range:
  assumes "num_val v = Some (Finite x)"
    and "x = 0 \<or> (2 powi (- 1000) \<le> \<bar>x\<bar> \<and> \<bar>x\<bar> \<le> 2 ^ 1000)"
  shows "truediv_100 v = Inr (PFloat (Finite (round_double (x / 100))))"
proof -
  note no = round_trip_bound(1)[OF assms(2)]
  show ?thesis
  proof (cases v)
    case (PBool b)
    then show ?thesis using assms(1) no by simp
  next
    case (PInt n)
    then show ?thesis using assms(1) no by simp
  next
    case (PFloat f)
    then show ?thesis using assms(1) no by (simp add: fl_def)
  qed (use assms(1) in simp_all)
qed

lemma mul_100_in_range:
  assumes "x = 0 \<or> (2 powi (- 1000) \<le> \<bar>x\<bar> \<and> \<bar>x\<bar> \<le> 2 ^ 1000)"
  shows "mul_100 (PFloat (Finite (round_double (x / 100)))) =
           PFloat (Finite (round_double (round_double (x / 100) * 100)))"
  using round_trip_bound(2)[OF assms] by (simp add: fl_def)

text \<open>The round trip of seven per cent, evaluated.\<close>

lemma round_double_7_percent:
  "round_double (7 / 100) = 1261007895663739 / 18014398509481984"
  using round_double_eqI[of "- 4" "7 / 100" 5044031582654956]
  by (simp add: power_int_minus)

lemma round_double_7_percent_back:
  "round_double (1261007895663739 / 18014398509481984 * 100) = 7881299347898369 / 1125899906842624"
  using round_double_eqI[of 2 "1261007895663739 / 18014398509481984 * 100" 7881299347898369]
  by (simp add: power_int_minus)

lemma seven_in_range: "(7::rat) = 0 \<or> (2 powi (- 1000) \<le> \<bar>7::rat\<bar> \<and> \<bar>7::rat\<bar> \<le> 2 ^ 1000)"
proof -
  have "(2::rat) powi (- 1000) \<le> 2 powi 0" by (rule power_int_increasing) simp_all
  moreover have "(2::rat) ^ 3 \<le> 2 ^ 1000" by (rule power_increasing) simp_all
  ultimately show ?thesis by simp
qed

lemma seven_percent_fraction:
  "convert_percentages_to_fractions [CONF_PRIOR \<mapsto> PFloat (Finite 7)] =
     Inr [CONF_PRIOR \<mapsto> PFloat (Finite (1261007895663739 / 18014398509481984))]"
proof -
  let ?d = "[CONF_PRIOR \<mapsto> PFloat (Finite 7)]"
  have no: "\<not> (\<exists>key \<in> set percentages. \<exists>val. ?d key = Some val \<and> isl (fraction_item key val))"
    by (auto simp: fraction_item_isl_iff split: if_splits)
  have "truediv_100 (PFloat (Finite 7)) = Inr (PFloat (Finite (round_double (7 / 100))))"
    by (rule truediv_100_in_range[OF _ seven_in_range]) simp
  then have "(\<lambda>key. map_option (\<lambda>val. projr (fraction_item key val)) (?d key)) =
        [CONF_PRIOR \<mapsto> PFloat (Finite (1261007895663739 / 18014398509481984))]"
    by (intro ext) (simp add: fraction_item_def percentages_def round_double_7_percent)
  then show ?thesis using no unfolding convert_percentages_to_fractions_alt by simp
qed

lemma seven_percent_back:
  "convert_fractions_to_percentages
     [CONF_PRIOR \<mapsto> PFloat (Finite (1261007895663739 / 18014398509481984))] =
   [CONF_PRIOR \<mapsto> PFloat (Finite (7881299347898369 / 1125899906842624))]"
proof -
  have "mul_100 (PFloat (Finite (round_double (7 / 100)))) =
          PFloat (Finite (round_double (round_double (7 / 100) * 100)))"
    by (rule mul_100_in_range[OF seven_in_range])
  then have "mul_100 (PFloat (Finite (1261007895663739 / 18014398509481984))) =
          PFloat (Finite (7881299347898369 / 1125899906842624))"
    by (simp only: round_double_7_percent round_double_7_percent_back)
  then show ?thesis
    by (intro ext) (simp add: convert_fractions_to_percentages_def percentage_item_def percentages_def)
qed

text \<open>
  C3, as the sources have it. Where the first conversion returns, converting back gives a
  dictionary with the keys of the original; every entry that is not an int, bool or float
  under one of the four keys is the original one, an infinity or NaN under such a key
  comes back as it is, and a finite number \<open>x\<close> under such a key, zero or of a magnitude
  between \<open>2 powi - 1000\<close> and \<open>2 ^ 1000\<close>, comes back as a float within \<open>\<bar>x\<bar> * 2 powi - 51\<close>
  of \<open>x\<close>: the two roundings need not cancel.
\<close>

theorem conversion_round_trip_close:
  "case convert_percentages_to_fractions d of
     Inl e \<Rightarrow> e = OverflowError \<and>
       (\<exists>key \<in> set percentages. \<exists>n. d key = Some (PInt n) \<and> overflows (of_int n / 100))
   | Inr r \<Rightarrow>
       dom (convert_fractions_to_percentages r) = dom d \<and>
       (\<forall>key v. d key = Some v \<longrightarrow>
          (if is_int_or_float v \<and> key \<in> set percentages
           then (\<forall>x. num_val v = Some (Finite x) \<and>
                      (x = 0 \<or> (2 powi (- 1000) \<le> \<bar>x\<bar> \<and> \<bar>x\<bar> \<le> 2 ^ 1000)) \<longrightarrow>
                   (\<exists>y. convert_fractions_to_percentages r key = Some (PFloat (Finite y)) \<and>
                        \<bar>y - x\<bar> \<le> \<bar>x\<bar> * 2 powi (- 51))) \<and>
                (v \<in> {PFloat PosInf, PFloat NegInf, PFloat NaN} \<longrightarrow>
                   convert_fractions_to_percentages r key = Some v)
           else convert_fractions_to_percentages r key = Some v))"
proof (cases "convert_percentages_to_fractions d")
  case (Inl e)
  then show ?thesis using convert_percentages_to_fractions_Inl_iff[of d e] by simp
next
  case (Inr r)
  have dom: "dom (convert_fractions_to_percentages r) = dom d"
    using convert_percentages_to_fractions_dom[OF Inr]
    by (auto simp: convert_fractions_to_percentages_def dom_def)
  have item: "\<exists>w. fraction_item key v = Inr w \<and>
                  convert_fractions_to_percentages r key = Some (percentage_item key w)"
    if "d key = Some v" for key v
  proof -
    have "fraction_item key v = Inr (the (r key))"
      using Inr that by (rule convert_percentages_to_fractions_item)
    moreover have "r key \<noteq> None"
      using convert_percentages_to_fractions_dom[OF Inr] that by blast
    ultimately show ?thesis by (auto simp: convert_fractions_to_percentages_def)
  qed
  have other: "convert_fractions_to_percentages r key = Some v"
    if "d key = Some v" "\<not> (is_int_or_float v \<and> key \<in> set percentages)" for key v
  proof -
    from item[OF that(1)] obtain w where
      w: "fraction_item key v = Inr w"
      "convert_fractions_to_percentages r key = Some (percentage_item key w)"
      by blast
    have "w = v" using w(1) that(2) by (auto simp: fraction_item_def)
    then show ?thesis using w(2) that(2) by (auto simp: percentage_item_def)
  qed
  have number: "\<exists>y. convert_fractions_to_percentages r key = Some (PFloat (Finite y)) \<and>
                        \<bar>y - x\<bar> \<le> \<bar>x\<bar> * 2 powi (- 51)"
    if "d key = Some v" "is_int_or_float v" "key \<in> set percentages"
       "num_val v = Some (Finite x)" "x = 0 \<or> (2 powi (- 1000) \<le> \<bar>x\<bar> \<and> \<bar>x\<bar> \<le> 2 ^ 1000)"
    for key v x
  proof -
    from item[OF that(1)] obtain w where
      w: "fraction_item key v = Inr w"
      "convert_fractions_to_percentages r key = Some (percentage_item key w)"
      by blast
    have "w = PFloat (Finite (round_double (x / 100)))"
      using w(1) that(2,3) truediv_100_in_range[OF that(4,5)] by (simp add: fraction_item_def)
    then have "convert_fractions_to_percentages r key =
                 Some (PFloat (Finite (round_double (round_double (x / 100) * 100))))"
      using w(2) that(3) mul_100_in_range[OF that(5)] by (simp add: percentage_item_def)
    then show ?thesis using round_trip_bound(3)[OF that(5)] by simp
  qed
  have special: "convert_fractions_to_percentages r key = Some v"
    if "d key = Some v" "key \<in> set percentages" "v \<in> {PFloat PosInf, PFloat NegInf, PFloat NaN}"
    for key v
  proof -
    from item[OF that(1)] obtain w where
      w: "fraction_item key v = Inr w"
      "convert_fractions_to_percentages r key = Some (percentage_item key w)"
      by blast
    have "w = v" using w(1) that(2,3) by (auto simp: fraction_item_def)
    then show ?thesis using w(2) that(2,3) by (auto simp: percentage_item_def)
  qed
  show ?thesis
    unfolding Inr sum.case using dom other number special by (intro conjI allI impI) auto
qed

theorem conversion_round_trip_close_witness:
  "\<exists>y. convert_fractions_to_percentages
          [CONF_PRIOR \<mapsto> PFloat (Finite (1261007895663739 / 18014398509481984))] CONF_PRIOR =
        Some (PFloat (Finite y)) \<and> \<bar>y - 7\<bar> \<le> \<bar>7\<bar> * 2 powi (- 51)"
  using conversion_round_trip_close[of "[CONF_PRIOR \<mapsto> PFloat (Finite 7)]",
          unfolded seven_percent_fraction sum.case, THEN conjunct2, rule_format,
          of CONF_PRIOR "PFloat (Finite 7)"]
        seven_in_range
  by (simp add: percentages_def)

text \<open>
  C3, as the spec states it, fails at seven per cent: 7 / 100 * 100 is the float next
  above 7.
\<close>

theorem seven_percent_round_trip:
  "convert_percentages_to_fractions [CONF_PRIOR \<mapsto> PFloat (Finite 7)] =
     Inr [CONF_PRIOR \<mapsto> PFloat (Finite (1261007895663739 / 18014398509481984))] \<and>
   convert_fractions_to_percentages
     [CONF_PRIOR \<mapsto> PFloat (Finite (1261007895663739 / 18014398509481984))] =
     [CONF_PRIOR \<mapsto> PFloat (Finite (7881299347898369 / 1125899906842624))] \<and>
   \<not> py_eq (PFloat (Finite (7881299347898369 / 1125899906842624))) (PFloat (Finite 7))"
  by (simp add: seven_percent_fraction seven_percent_back py_eq_def)

end
